theory Spec2Isabelle
  imports Main "HOL-Library.Word"
begin

unbundle bit_operations_syntax

section \<open>Common data\<close>

text \<open>
  Go's \<^verbatim>\<open>[]byte\<close> and \<^verbatim>\<open>string\<close> are both sequences of bytes; an Isabelle
  \<^typ>\<open>char\<close> is one byte, so both are modelled as \<^typ>\<open>string\<close>.
\<close>

type_synonym bytes = string

text \<open>
  \<^verbatim>\<open>time.Duration\<close> is an \<^verbatim>\<open>int64\<close> count of nanoseconds: a 64-bit word that is
  compared as a signed number.
\<close>

type_synonym Duration = "64 word"

definition Second :: Duration where
  "Second = 1000000000"

text \<open>
  The arguments of an MCP tool call (\<^verbatim>\<open>mcp.CallToolRequest\<close>) are a JSON object. The
  accessors of the mcp-go library return the default when the key is absent or holds a
  value of another type.
\<close>

datatype argval = AString string | ANumber int | ABool bool | AStrings "string list"

type_synonym CallToolRequest = "string \<rightharpoonup> argval"

definition GetString :: "CallToolRequest \<Rightarrow> string \<Rightarrow> string \<Rightarrow> string" where
  "GetString req key dflt = (case req key of Some (AString s) \<Rightarrow> s | _ \<Rightarrow> dflt)"

definition GetInt :: "CallToolRequest \<Rightarrow> string \<Rightarrow> int \<Rightarrow> int" where
  "GetInt req key dflt = (case req key of Some (ANumber n) \<Rightarrow> n | _ \<Rightarrow> dflt)"

definition GetBool :: "CallToolRequest \<Rightarrow> string \<Rightarrow> bool \<Rightarrow> bool" where
  "GetBool req key dflt = (case req key of Some (ABool b) \<Rightarrow> b | _ \<Rightarrow> dflt)"

definition GetStringSlice :: "CallToolRequest \<Rightarrow> string \<Rightarrow> string list \<Rightarrow> string list" where
  "GetStringSlice req key dflt = (case req key of Some (AStrings xs) \<Rightarrow> xs | _ \<Rightarrow> dflt)"

section \<open>OAST poll: the long-poll cap\<close>

text \<open>
  Both poll handlers parse the \<^verbatim>\<open>wait\<close> string with \<^verbatim>\<open>time.ParseDuration\<close> (a
  function of Go's standard library, a parameter here), cap the result at 120 seconds and
  pass it to \<^verbatim>\<open>oastBackend.PollSession\<close>. The model of a handler runs up to that call
  and returns its arguments, or the error the handler answers with before it.
\<close>

record OastPollRequest =
  poll_OastID :: string
  poll_Since :: string
  poll_Wait :: string
  poll_Limit :: int

text \<open>The call \<^verbatim>\<open>PollSession(ctx, oastID, since, wait, limit)\<close>.\<close>

datatype PollSessionCall = PollSession string string Duration int

datatype ErrCode = ErrCodeInvalidRequest | ErrCodeNotFound | ErrCodeBackendError | ErrCodeTimeout

text \<open>\<^verbatim>\<open>s.writeError(w, status, code, message, details)\<close> of the local-socket server.\<close>

datatype ApiError = WriteError nat ErrCode string

text \<open>
  \<^verbatim>\<open>(s *Server) handleOastPoll\<close>, oast\_handler.go lines 48-74. The decoded body is
  \<open>None\<close> when \<^verbatim>\<open>json.Decode\<close> fails.
\<close>

definition Server_handleOastPoll ::
  "(string \<Rightarrow> string + Duration) \<Rightarrow> OastPollRequest option \<Rightarrow> ApiError + PollSessionCall" where
  "Server_handleOastPoll ParseDuration body =
     (case body of
        None \<Rightarrow> Inl (WriteError 400 ErrCodeInvalidRequest ''invalid request body'')
      | Some req \<Rightarrow>
          if poll_OastID req = '''' then
            Inl (WriteError 400 ErrCodeInvalidRequest ''oast_id is required'')
          else if poll_Wait req \<noteq> '''' then
            (case ParseDuration (poll_Wait req) of
               Inl e \<Rightarrow> Inl (WriteError 400 ErrCodeInvalidRequest ''invalid wait duration'')
             | Inr wait \<Rightarrow>
                 Inr (PollSession (poll_OastID req) (poll_Since req)
                        (if 120 * Second <s wait then 120 * Second else wait)
                        (poll_Limit req)))
          else
            Inr (PollSession (poll_OastID req) (poll_Since req) 0 (poll_Limit req)))"

text \<open>
  \<^verbatim>\<open>(m *mcpServer) handleOastPoll\<close>, the MCP gateway, lines 623-646. An error is the
  message of \<^verbatim>\<open>errorResult\<close>.
\<close>

definition mcpServer_handleOastPoll ::
  "(string \<Rightarrow> string + Duration) \<Rightarrow> CallToolRequest \<Rightarrow> string + PollSessionCall" where
  "mcpServer_handleOastPoll ParseDuration req =
     (let oastID = GetString req ''oast_id'' '''' in
      if oastID = '''' then Inl ''oast_id is required''
      else
        (let waitStr = GetString req ''wait'' '''' in
         if waitStr \<noteq> '''' then
           (case ParseDuration waitStr of
              Inl e \<Rightarrow> Inl (''invalid wait duration: '' @ e)
            | Inr parsed \<Rightarrow>
                Inr (PollSession oastID (GetString req ''since'' '''')
                       (if 120 * Second <s parsed then 120 * Second else parsed)
                       (GetInt req ''limit'' 0)))
         else
           Inr (PollSession oastID (GetString req ''since'' '''') 0 (GetInt req ''limit'' 0))))"

text \<open>The wait a handler hands to the backend.\<close>

fun call_wait :: "PollSessionCall \<Rightarrow> Duration" where
  "call_wait (PollSession oastID since wait limit) = wait"

lemma cap_sint:
  "sint (if 120 * Second <s (w :: Duration) then 120 * Second else w) = min (sint w) 120000000000"
  by (simp add: Second_def word_sless_alt min_def)

text \<open>
  Claim C8. For every poll request whose \<^verbatim>\<open>wait\<close> string is not empty and parses to a
  duration \<open>w\<close>, both the local-socket handler and the MCP gateway handler reach the
  backend call, and the wait they pass is \<open>min w 120s\<close> (read as signed nanoseconds);
  this holds for every \<open>w\<close>, the positive ones included.
\<close>

theorem oast_poll_wait_capped:
  assumes "ParseDuration ws = Inr w" and "ws \<noteq> ''''" and "oid \<noteq> ''''"
    and "poll_OastID r = oid" and "poll_Wait r = ws"
    and "q ''oast_id'' = Some (AString oid)" and "q ''wait'' = Some (AString ws)"
  shows "(\<exists>c. Server_handleOastPoll ParseDuration (Some r) = Inr c
              \<and> sint (call_wait c) = min (sint w) (120 * 1000000000))
       \<and> (\<exists>c. mcpServer_handleOastPoll ParseDuration q = Inr c
              \<and> sint (call_wait c) = min (sint w) (120 * 1000000000))"
proof -
  have local: "\<exists>c. Server_handleOastPoll ParseDuration (Some r) = Inr c
              \<and> sint (call_wait c) = min (sint w) (120 * 1000000000)"
    using assms(1-5) by (simp add: Server_handleOastPoll_def cap_sint)
  have mcp: "\<exists>c. mcpServer_handleOastPoll ParseDuration q = Inr c
              \<and> sint (call_wait c) = min (sint w) (120 * 1000000000)"
    using assms(1-3,6,7)
    by (simp add: mcpServer_handleOastPoll_def GetString_def Let_def cap_sint)
  from local mcp show ?thesis by blast
qed

theorem oast_poll_wait_capped_witness:
  "(\<exists>c. Server_handleOastPoll (\<lambda>s. Inr 300000000000)
          (Some \<lparr>poll_OastID = ''abc'', poll_Since = ''last'', poll_Wait = ''300s'', poll_Limit = 5\<rparr>) = Inr c
        \<and> sint (call_wait c) = 120000000000)
   \<and> (\<exists>c. mcpServer_handleOastPoll (\<lambda>s. Inr 300000000000)
          [''oast_id'' \<mapsto> AString ''abc'', ''wait'' \<mapsto> AString ''300s''] = Inr c
        \<and> sint (call_wait c) = 120000000000)"
  using oast_poll_wait_capped
    [of "\<lambda>s. Inr 300000000000" "''300s''" 300000000000 "''abc''"
        "\<lparr>poll_OastID = ''abc'', poll_Since = ''last'', poll_Wait = ''300s'', poll_Limit = 5\<rparr>"
        "[''oast_id'' \<mapsto> AString ''abc'', ''wait'' \<mapsto> AString ''300s'']"]
  by simp

section \<open>Socket security\<close>

text \<open>
  The three build variants of the platform-specific file: socket\_security\_linux.go,
  the darwin variant, and socket\_security\_other.go (every other platform).
\<close>

datatype platform = Linux | Darwin | Other

text \<open>
  \<^verbatim>\<open>os.FileInfo\<close> as \<^verbatim>\<open>os.Lstat\<close> returns it: the \<^verbatim>\<open>os.FileMode\<close> (a
  \<^verbatim>\<open>uint32\<close>) and, behind \<^verbatim>\<open>Sys()\<close>, the owner of the \<^verbatim>\<open>syscall.Stat_t\<close>
  (\<open>None\<close> when \<^verbatim>\<open>Sys()\<close> is not a \<^verbatim>\<open>*syscall.Stat_t\<close>).
\<close>

record FileInfo =
  fi_Mode :: "32 word"
  fi_StatUid :: "32 word option"

definition ModeDir :: "32 word" where
  "ModeDir = push_bit 31 1"

definition ModeSymlink :: "32 word" where
  "ModeSymlink = push_bit 27 1"

text \<open>\<^verbatim>\<open>ModePerm = 0777\<close> in octal.\<close>

definition ModePerm :: "32 word" where
  "ModePerm = 511"

definition IsDir :: "FileInfo \<Rightarrow> bool" where
  "IsDir info = (fi_Mode info AND ModeDir \<noteq> 0)"

definition Perm :: "32 word \<Rightarrow> 32 word" where
  "Perm m = m AND ModePerm"

text \<open>
  The process and the file system the function runs against: the platform of the build,
  \<^verbatim>\<open>uint32(os.Getuid())\<close>, and \<^verbatim>\<open>os.Lstat\<close> (\<open>Inl\<close> the error).
\<close>

record OS =
  os_platform :: platform
  os_Getuid :: "32 word"
  os_Lstat :: "string \<Rightarrow> string + FileInfo"

text \<open>
  \<^verbatim>\<open>getFileOwnerUID\<close>: on Linux and macOS the owner of the stat structure, on every
  other platform the current user, which skips the ownership check.
\<close>

definition getFileOwnerUID :: "OS \<Rightarrow> FileInfo \<Rightarrow> string + 32 word" where
  "getFileOwnerUID os info =
     (case os_platform os of
        Other \<Rightarrow> Inr (os_Getuid os)
      | _ \<Rightarrow> (case fi_StatUid info of
                None \<Rightarrow> Inl ''failed to get underlying stat''
              | Some uid \<Rightarrow> Inr uid))"

datatype SocketPathError =
    StatFailed string
  | IsSymlink
  | NotADirectory
  | OwnerUnknown string
  | WrongOwner "32 word" "32 word"
  | InsecurePermissions "32 word"

text \<open>
  \<^verbatim>\<open>ValidateSocketPathSecurity\<close>; \<open>None\<close> is \<^verbatim>\<open>nil\<close>. \<^verbatim>\<open>filepath.Dir\<close> is the
  parameter \<open>Dir\<close>. The mask \<^verbatim>\<open>0022\<close> is octal, 18 in decimal.
\<close>

definition ValidateSocketPathSecurity :: "OS \<Rightarrow> (string \<Rightarrow> string) \<Rightarrow> string \<Rightarrow> SocketPathError option" where
  "ValidateSocketPathSecurity os Dir socketPath =
     (let dir = Dir socketPath in
      case os_Lstat os dir of
        Inl err \<Rightarrow> Some (StatFailed err)
      | Inr info \<Rightarrow>
          if fi_Mode info AND ModeSymlink \<noteq> 0 then Some IsSymlink
          else if \<not> IsDir info then Some NotADirectory
          else (case getFileOwnerUID os info of
                  Inl err \<Rightarrow> Some (OwnerUnknown err)
                | Inr uid \<Rightarrow>
                    if uid \<noteq> os_Getuid os then Some (WrongOwner uid (os_Getuid os))
                    else if Perm (fi_Mode info) AND 18 \<noteq> 0
                      then Some (InsecurePermissions (Perm (fi_Mode info)))
                    else None))"

text \<open>
  The five conditions of the specification on the parent directory, read on the result
  of the non-following stat: it exists (the stat succeeds), is no symbolic link, is a
  directory, is owned by the current user, and has no write bit for group or others.
\<close>

definition parent_exists :: "OS \<Rightarrow> string \<Rightarrow> bool" where
  "parent_exists os dir = (case os_Lstat os dir of Inl err \<Rightarrow> False | Inr info \<Rightarrow> True)"

definition parent_not_symlink :: "OS \<Rightarrow> string \<Rightarrow> bool" where
  "parent_not_symlink os dir =
     (case os_Lstat os dir of Inl err \<Rightarrow> False | Inr info \<Rightarrow> fi_Mode info AND ModeSymlink = 0)"

definition parent_is_dir :: "OS \<Rightarrow> string \<Rightarrow> bool" where
  "parent_is_dir os dir = (case os_Lstat os dir of Inl err \<Rightarrow> False | Inr info \<Rightarrow> IsDir info)"

definition parent_owned_by_user :: "OS \<Rightarrow> string \<Rightarrow> bool" where
  "parent_owned_by_user os dir =
     (case os_Lstat os dir of Inl err \<Rightarrow> False | Inr info \<Rightarrow> fi_StatUid info = Some (os_Getuid os))"

definition parent_not_group_other_writable :: "OS \<Rightarrow> string \<Rightarrow> bool" where
  "parent_not_group_other_writable os dir =
     (case os_Lstat os dir of Inl err \<Rightarrow> False | Inr info \<Rightarrow> fi_Mode info AND 18 = 0)"

lemma Perm_mask: "Perm m AND 18 = m AND 18"
proof -
  have "(511 :: 32 word) AND 18 = 18" by simp
  then show ?thesis by (simp add: Perm_def ModePerm_def and.assoc)
qed

text \<open>
  Claim C5, as the code has it. On every platform the function returns \<^verbatim>\<open>nil\<close>
  exactly when the parent exists, is no symbolic link, is a directory, has no write bit
  for group or others, and, on Linux and macOS only, is owned by the current user. On the
  other platforms ownership is not checked.
\<close>

theorem ValidateSocketPathSecurity_nil_iff:
  "ValidateSocketPathSecurity os Dir p = None \<longleftrightarrow>
     parent_exists os (Dir p) \<and> parent_not_symlink os (Dir p) \<and> parent_is_dir os (Dir p)
     \<and> (os_platform os = Other \<or> parent_owned_by_user os (Dir p))
     \<and> parent_not_group_other_writable os (Dir p)"
  by (cases "os_platform os")
     (auto simp: ValidateSocketPathSecurity_def getFileOwnerUID_def Let_def Perm_mask
        parent_exists_def parent_not_symlink_def parent_is_dir_def parent_owned_by_user_def
        parent_not_group_other_writable_def
        split: sum.splits option.splits)

text \<open>
  The claim as stated fails on a platform other than Linux and macOS: a directory owned by
  root (uid 0) with mode \<^verbatim>\<open>drwxr-xr-x\<close> is accepted for a user with uid 1000.
\<close>

theorem ValidateSocketPathSecurity_other_counterexample:
  "ValidateSocketPathSecurity
      \<lparr>os_platform = Other, os_Getuid = 1000,
       os_Lstat = (\<lambda>p. Inr \<lparr>fi_Mode = ModeDir OR 493, fi_StatUid = Some 0\<rparr>)\<rparr>
      (\<lambda>p. ''/srv/.sectool/service'') ''/srv/.sectool/service/socket'' = None
   \<and> \<not> parent_owned_by_user
      \<lparr>os_platform = Other, os_Getuid = 1000,
       os_Lstat = (\<lambda>p. Inr \<lparr>fi_Mode = ModeDir OR 493, fi_StatUid = Some 0\<rparr>)\<rparr>
      ''/srv/.sectool/service''"
  by (simp add: ValidateSocketPathSecurity_def getFileOwnerUID_def Let_def IsDir_def Perm_def
        ModeDir_def ModeSymlink_def ModePerm_def parent_owned_by_user_def)

section \<open>The secure listener\<close>

text \<open>
  An accepted connection, as far as \<^verbatim>\<open>verifyPeerCredentials\<close> looks at it: whether it
  is a \<^verbatim>\<open>*net.UnixConn\<close>, the errors of \<^verbatim>\<open>SyscallConn\<close> and \<^verbatim>\<open>raw.Control\<close>, and
  the result of the \<^verbatim>\<open>getsockopt\<close> for the peer credentials (\<open>Inr\<close> the effective user
  identifier of the peer, a \<^verbatim>\<open>uint32\<close>).
\<close>

record Conn =
  conn_fd :: nat
  conn_isUnix :: bool
  conn_SyscallConnErr :: "string option"
  conn_ControlErr :: "string option"
  conn_PeerCred :: "string + 32 word"

datatype PeerError =
    NotUnixConn
  | SyscallConnFailed string
  | ControlFailed string
  | PeerCredFailed string
  | UIDMismatch "32 word" "32 word"

text \<open>
  \<^verbatim>\<open>verifyPeerCredentials\<close>: the Linux and the macOS variant run the same checks; the
  variant for every other platform returns \<^verbatim>\<open>nil\<close> at once.
\<close>

definition verifyPeerCredentials :: "platform \<Rightarrow> 32 word \<Rightarrow> Conn \<Rightarrow> PeerError option" where
  "verifyPeerCredentials pf serverUID conn =
     (case pf of
        Other \<Rightarrow> None
      | _ \<Rightarrow>
          if \<not> conn_isUnix conn then Some NotUnixConn
          else (case conn_SyscallConnErr conn of
                  Some e \<Rightarrow> Some (SyscallConnFailed e)
                | None \<Rightarrow>
                    (case conn_ControlErr conn of
                       Some e \<Rightarrow> Some (ControlFailed e)
                     | None \<Rightarrow>
                         (case conn_PeerCred conn of
                            Inl e \<Rightarrow> Some (PeerCredFailed e)
                          | Inr uid \<Rightarrow>
                              if uid \<noteq> serverUID then Some (UIDMismatch uid serverUID)
                              else None))))"

text \<open>
  What happens to connections, in order: the listener logs a rejection and closes the
  connection; reading a request and writing an envelope are what a handler does with a
  connection it was given.
\<close>

datatype ConnEvent = LogRejected PeerError | ConnClose Conn | ConnRead Conn | ConnWrite Conn

datatype AcceptResult = AcceptConn Conn | AcceptError string | AcceptBlocked

text \<open>
  \<^verbatim>\<open>(sl *secureListener) Accept\<close>. The wrapped listener is the list of what its
  \<^verbatim>\<open>Accept\<close> will return, call by call (\<open>Inl\<close> an error); when the list is exhausted the
  call blocks, which is the result \<open>AcceptBlocked\<close>. The loop is the recursion: a rejected
  connection is logged and closed, and the loop goes on with the next one. The result
  comes with the rest of the list and the events of this call.
\<close>

fun Accept ::
  "platform \<Rightarrow> 32 word \<Rightarrow> (string + Conn) list \<Rightarrow> AcceptResult \<times> (string + Conn) list \<times> ConnEvent list" where
  "Accept pf uid [] = (AcceptBlocked, [], [])"
| "Accept pf uid (Inl err # rest) = (AcceptError err, rest, [])"
| "Accept pf uid (Inr conn # rest) =
     (case verifyPeerCredentials pf uid conn of
        Some e \<Rightarrow>
          (case Accept pf uid rest of
             (r, rest', evs) \<Rightarrow> (r, rest', LogRejected e # ConnClose conn # evs))
      | None \<Rightarrow> (AcceptConn conn, rest, []))"

fun is_io :: "ConnEvent \<Rightarrow> bool" where
  "is_io (ConnRead c) = True"
| "is_io (ConnWrite c) = True"
| "is_io ev = False"

lemma verifyPeerCredentials_nil:
  "pf \<noteq> Other \<Longrightarrow> verifyPeerCredentials pf uid c = None \<Longrightarrow> conn_PeerCred c = Inr uid"
  by (cases pf) (auto simp: verifyPeerCredentials_def split: if_splits option.splits sum.splits)

lemma verifyPeerCredentials_mismatch:
  "pf \<noteq> Other \<Longrightarrow> conn_PeerCred c = Inr peer \<Longrightarrow> peer \<noteq> uid
   \<Longrightarrow> \<exists>e. verifyPeerCredentials pf uid c = Some e"
  by (cases pf) (auto simp: verifyPeerCredentials_def split: option.splits)

lemma Accept_returns_verified:
  "Accept pf uid pending = (AcceptConn c, rest, evs) \<Longrightarrow> verifyPeerCredentials pf uid c = None"
proof (induction pending arbitrary: rest evs)
  case Nil
  then show ?case by simp
next
  case (Cons a pending)
  show ?case
  proof (cases a)
    case (Inl err)
    with Cons.prems show ?thesis by simp
  next
    case (Inr conn)
    show ?thesis
    proof (cases "verifyPeerCredentials pf uid conn")
      case None
      with Cons.prems Inr show ?thesis by simp
    next
      case (Some e)
      obtain r rest' evs' where rec: "Accept pf uid pending = (r, rest', evs')"
        by (cases "Accept pf uid pending") auto
      with Cons.prems Inr Some have "r = AcceptConn c" by simp
      with rec Cons.IH show ?thesis by simp
    qed
  qed
qed

lemma Accept_no_io:
  "Accept pf uid pending = (r, rest, evs) \<Longrightarrow> ev \<in> set evs \<Longrightarrow> \<not> is_io ev"
proof (induction pending arbitrary: r rest evs)
  case Nil
  then show ?case by simp
next
  case (Cons a pending)
  show ?case
  proof (cases a)
    case (Inl err)
    with Cons.prems show ?thesis by simp
  next
    case (Inr conn)
    show ?thesis
    proof (cases "verifyPeerCredentials pf uid conn")
      case None
      with Cons.prems Inr show ?thesis by simp
    next
      case (Some e)
      obtain r' rest' evs' where rec: "Accept pf uid pending = (r', rest', evs')"
        by (cases "Accept pf uid pending") auto
      with Cons.prems Inr Some have evs: "evs = LogRejected e # ConnClose conn # evs'"
        by simp
      with Cons.prems(2) have "ev = LogRejected e \<or> ev = ConnClose conn \<or> ev \<in> set evs'"
        by auto
      with rec Cons.IH show ?thesis by auto
    qed
  qed
qed

text \<open>
  Claim C2, as the code has it: on Linux and macOS. A connection the listener returns has
  passed the check, so its peer's effective user identifier is the daemon's. A connection
  of another user at the head of the queue is logged and closed, and the call goes on
  with the connections behind it: its result is the result on the rest of the queue. No
  event of the listener reads from or writes to a connection.
\<close>

theorem secureListener_Accept_same_uid:
  assumes "pf \<noteq> Other"
  shows "(\<forall>c rest evs. Accept pf uid pending = (AcceptConn c, rest, evs) \<longrightarrow> conn_PeerCred c = Inr uid)
       \<and> (\<forall>c peer. conn_PeerCred c = Inr peer \<and> peer \<noteq> uid \<longrightarrow>
            (\<exists>e. Accept pf uid (Inr c # pending) =
                   (fst (Accept pf uid pending), fst (snd (Accept pf uid pending)),
                    LogRejected e # ConnClose c # snd (snd (Accept pf uid pending)))))
       \<and> (\<forall>ev \<in> set (snd (snd (Accept pf uid pending))). \<not> is_io ev)"
proof -
  have a: "\<forall>c rest evs. Accept pf uid pending = (AcceptConn c, rest, evs) \<longrightarrow> conn_PeerCred c = Inr uid"
    using assms Accept_returns_verified verifyPeerCredentials_nil by blast
  have b: "\<forall>c peer. conn_PeerCred c = Inr peer \<and> peer \<noteq> uid \<longrightarrow>
            (\<exists>e. Accept pf uid (Inr c # pending) =
                   (fst (Accept pf uid pending), fst (snd (Accept pf uid pending)),
                    LogRejected e # ConnClose c # snd (snd (Accept pf uid pending))))"
  proof (intro allI impI)
    fix c :: Conn and peer :: "32 word"
    assume h: "conn_PeerCred c = Inr peer \<and> peer \<noteq> uid"
    then obtain e where "verifyPeerCredentials pf uid c = Some e"
      using assms verifyPeerCredentials_mismatch by blast
    then show "\<exists>e. Accept pf uid (Inr c # pending) =
                   (fst (Accept pf uid pending), fst (snd (Accept pf uid pending)),
                    LogRejected e # ConnClose c # snd (snd (Accept pf uid pending)))"
      by (auto split: prod.splits)
  qed
  have c: "\<forall>ev \<in> set (snd (snd (Accept pf uid pending))). \<not> is_io ev"
    using Accept_no_io [of pf uid pending] by (metis prod.collapse)
  from a b c show ?thesis by blast
qed

text \<open>
  A connection of user 1001 and then one of user 1000, the daemon's: the first is logged
  and closed, the second is returned.
\<close>

theorem secureListener_Accept_same_uid_witness:
  "Accept Linux 1000
     [Inr \<lparr>conn_fd = 7, conn_isUnix = True, conn_SyscallConnErr = None, conn_ControlErr = None,
           conn_PeerCred = Inr 1001\<rparr>,
      Inr \<lparr>conn_fd = 8, conn_isUnix = True, conn_SyscallConnErr = None, conn_ControlErr = None,
           conn_PeerCred = Inr 1000\<rparr>]
   = (AcceptConn \<lparr>conn_fd = 8, conn_isUnix = True, conn_SyscallConnErr = None,
                  conn_ControlErr = None, conn_PeerCred = Inr 1000\<rparr>,
      [],
      [LogRejected (UIDMismatch 1001 1000),
       ConnClose \<lparr>conn_fd = 7, conn_isUnix = True, conn_SyscallConnErr = None,
                  conn_ControlErr = None, conn_PeerCred = Inr 1001\<rparr>])
   \<and> conn_PeerCred \<lparr>conn_fd = 8, conn_isUnix = True, conn_SyscallConnErr = None,
                  conn_ControlErr = None, conn_PeerCred = Inr (1000 :: 32 word)\<rparr> = Inr 1000"
  using secureListener_Accept_same_uid [of Linux 1000
     "[Inr \<lparr>conn_fd = 8, conn_isUnix = True, conn_SyscallConnErr = None, conn_ControlErr = None,
           conn_PeerCred = Inr 1000\<rparr>]"]
  by (simp add: verifyPeerCredentials_def)

text \<open>
  The claim as stated fails on a platform other than Linux and macOS: there the listener
  returns the connection of user 1001 to a daemon of user 1000.
\<close>

theorem secureListener_Accept_other_counterexample:
  "Accept Other 1000
     [Inr \<lparr>conn_fd = 7, conn_isUnix = True, conn_SyscallConnErr = None, conn_ControlErr = None,
           conn_PeerCred = Inr 1001\<rparr>]
   = (AcceptConn \<lparr>conn_fd = 7, conn_isUnix = True, conn_SyscallConnErr = None,
                  conn_ControlErr = None, conn_PeerCred = Inr 1001\<rparr>, [], [])
   \<and> (1001 :: 32 word) \<noteq> 1000"
  by (simp add: verifyPeerCredentials_def)

section \<open>The replay store\<close>

text \<open>
  \<^verbatim>\<open>time.Time\<close> as the number of nanoseconds since Go's zero time (January 1 of year 1,
  UTC), so that the zero value of the type is 0 and \<^verbatim>\<open>IsZero\<close> tests for it.
\<close>

type_synonym Time = int

definition IsZero :: "Time \<Rightarrow> bool" where
  "IsZero t = (t = 0)"

record RequestEntry =
  re_Headers :: bytes
  re_Body :: bytes
  re_Duration :: Duration
  re_CreatedAt :: Time

type_synonym RequestStore = "string \<rightharpoonup> RequestEntry"

definition NewRequestStore :: RequestStore where
  "NewRequestStore = Map.empty"

text \<open>
  Modelled from the spec: \<^verbatim>\<open>RequestStore.Store\<close> and \<^verbatim>\<open>RequestStore.Get\<close> of the package
  \<^verbatim>\<open>store\<close>, whose file is not among the sources (its test file request\_test.go is). The
  store is a map keyed by the replay identifier; an entry carries its creation timestamp,
  which \<^verbatim>\<open>Store\<close> sets to the current time when the entry comes with the zero time
  (test \<^verbatim>\<open>sets_created_time_when_zero\<close>) and leaves alone otherwise (test
  \<^verbatim>\<open>preserves_existing_created_time\<close>). The current time is the parameter \<open>now\<close>.
\<close>

definition Store :: "Time \<Rightarrow> RequestStore \<Rightarrow> string \<Rightarrow> RequestEntry \<Rightarrow> RequestStore" where
  "Store now st ident entry =
     st(ident \<mapsto> (if IsZero (re_CreatedAt entry) then entry\<lparr>re_CreatedAt := now\<rparr> else entry))"

text \<open>
  Modelled from the spec: \<^verbatim>\<open>RequestStore.Get\<close> (file not among the sources), the lookup
  of an identifier in the map.
\<close>

definition Get :: "RequestStore \<Rightarrow> string \<Rightarrow> RequestEntry option" where
  "Get st ident = st ident"

text \<open>
  The two cases of \<^verbatim>\<open>TestRequestStoreStoreAndGet\<close>, stored at some time \<open>now\<close> that is
  not the zero time: the entry without a timestamp gets \<open>now\<close>, the entry of second 100
  of the Unix epoch (62135596900 seconds after the zero time) keeps its timestamp.
\<close>

lemma RequestStore_tests:
  "now \<noteq> 0 \<Longrightarrow>
     Get (Store now NewRequestStore ''id''
            \<lparr>re_Headers = ''h1'', re_Body = ''body'', re_Duration = Second, re_CreatedAt = 0\<rparr>) ''id''
       = Some \<lparr>re_Headers = ''h1'', re_Body = ''body'', re_Duration = Second, re_CreatedAt = now\<rparr>"
  "Get (Store now NewRequestStore ''id''
          \<lparr>re_Headers = ''h2'', re_Body = ''body2'', re_Duration = 60 * Second,
           re_CreatedAt = 62135596900000000000\<rparr>) ''id''
     = Some \<lparr>re_Headers = ''h2'', re_Body = ''body2'', re_Duration = 60 * Second,
             re_CreatedAt = 62135596900000000000\<rparr>"
  by (simp_all add: Get_def Store_def IsZero_def NewRequestStore_def)

text \<open>
  Claim C10. After \<^verbatim>\<open>Store\<close>, \<^verbatim>\<open>Get\<close> with the same identifier finds the entry with the
  same headers, body and duration; its creation timestamp is the current time when the
  entry came with the zero time, and the entry's own timestamp otherwise.
\<close>

theorem Store_then_Get:
  "Get (Store now st ident entry) ident =
     Some \<lparr>re_Headers = re_Headers entry, re_Body = re_Body entry,
           re_Duration = re_Duration entry,
           re_CreatedAt = (if IsZero (re_CreatedAt entry) then now else re_CreatedAt entry)\<rparr>"
  by (simp add: Get_def Store_def)

section \<open>The replay handlers of the MCP gateway\<close>

record PathQueryOpts =
  pq_Path :: string
  pq_Query :: string
  pq_SetQuery :: "string list"
  pq_RemoveQuery :: "string list"

record ReplaySendRequest =
  rs_AddHeaders :: "string list"
  rs_RemoveHeaders :: "string list"
  rs_Target :: string

record validationIssue =
  vi_Severity :: string
  vi_Message :: string

record Target =
  tg_Hostname :: string
  tg_Port :: int
  tg_UsesHTTPS :: bool

record SendRequestInput =
  sri_RawRequest :: bytes
  sri_Target :: Target
  sri_FollowRedirects :: bool
  sri_Timeout :: Duration

record SendRequestResult =
  srr_Headers :: bytes
  srr_Body :: bytes
  srr_Duration :: Duration

text \<open>\<^verbatim>\<open>ReplaySendResponse\<close> with its embedded \<^verbatim>\<open>ResponseDetails\<close>.\<close>

record ReplaySendResponse =
  rsp_ReplayID :: string
  rsp_Duration :: string
  rsp_Status :: int
  rsp_StatusLine :: string
  rsp_RespHeaders :: string
  rsp_RespSize :: nat
  rsp_RespPreview :: string

record ReplayGetResponse =
  rg_ReplayID :: string
  rg_Duration :: string
  rg_Status :: int
  rg_StatusLine :: string
  rg_RespHeaders :: string
  rg_RespBody :: string
  rg_RespSize :: nat

text \<open>
  The functions of the package that the handlers call and whose file (httputil.go) is not
  among the sources, and the functions of Go's standard library they call, as parameters
  of the handlers.
\<close>

record Helpers =
  h_modifyRequestLine :: "bytes \<Rightarrow> PathQueryOpts \<Rightarrow> bytes"
  h_splitHeadersBody :: "bytes \<Rightarrow> bytes \<times> bytes"
  h_applyHeaderModifications :: "bytes \<Rightarrow> ReplaySendRequest \<Rightarrow> bytes"
  h_modifyJSONBody :: "bytes \<Rightarrow> string list \<Rightarrow> string list \<Rightarrow> string + bytes"
  h_updateContentLength :: "bytes \<Rightarrow> nat \<Rightarrow> bytes"
  h_validateRequest :: "bytes \<Rightarrow> validationIssue list"
  h_formatIssues :: "validationIssue list \<Rightarrow> string"
  h_parseTarget :: "bytes \<Rightarrow> string \<Rightarrow> string \<times> int \<times> bool"
  h_parseResponseStatus :: "bytes \<Rightarrow> int \<times> string"
  h_previewBody :: "bytes \<Rightarrow> nat \<Rightarrow> string"
  h_responsePreviewSize :: nat
  h_ParseDuration :: "string \<Rightarrow> string + Duration"
  h_DurationString :: "Duration \<Rightarrow> string"

text \<open>
  What the handler reaches through \<^verbatim>\<open>m.service\<close>: the flow store's \<^verbatim>\<open>Lookup\<close> (the offset
  of the flow), the proxy backend's \<^verbatim>\<open>GetProxyHistory\<close> (the raw requests of the entries)
  and \<^verbatim>\<open>SendRequest\<close>, the identifier that \<^verbatim>\<open>ids.Generate\<close> draws in this call, and the
  current time.
\<close>

record Service =
  sv_Lookup :: "string \<Rightarrow> nat option"
  sv_GetProxyHistory :: "nat \<Rightarrow> nat \<Rightarrow> string + bytes list"
  sv_SendRequest :: "string \<Rightarrow> SendRequestInput \<Rightarrow> string + SendRequestResult"
  sv_Generate :: string
  sv_Now :: Time

text \<open>\<^verbatim>\<open>handleReplaySend\<close>, lines 482-487: the options of the request-line rewrite.\<close>

definition pathQueryOpts :: "CallToolRequest \<Rightarrow> PathQueryOpts" where
  "pathQueryOpts req =
     \<lparr>pq_Path = GetString req ''path'' [], pq_Query = GetString req ''query'' [],
      pq_SetQuery = GetStringSlice req ''set_query'' [],
      pq_RemoveQuery = GetStringSlice req ''remove_query'' []\<rparr>"

text \<open>Lines 482-496: the header block after the request-line rewrite and the header edits.\<close>

definition replayHeaders :: "Helpers \<Rightarrow> CallToolRequest \<Rightarrow> bytes \<Rightarrow> bytes" where
  "replayHeaders hp req rawRequest =
     h_applyHeaderModifications hp
       (fst (h_splitHeadersBody hp (h_modifyRequestLine hp rawRequest (pathQueryOpts req))))
       \<lparr>rs_AddHeaders = GetStringSlice req ''add_headers'' [],
        rs_RemoveHeaders = GetStringSlice req ''remove_headers'' [],
        rs_Target = GetString req ''target'' []\<rparr>"

text \<open>Line 489: the body of the base request, after the request-line rewrite.\<close>

definition baseBody :: "Helpers \<Rightarrow> CallToolRequest \<Rightarrow> bytes \<Rightarrow> bytes" where
  "baseBody hp req rawRequest =
     snd (h_splitHeadersBody hp (h_modifyRequestLine hp rawRequest (pathQueryOpts req)))"

text \<open>Lines 498-500: the literal body override.\<close>

definition overrideBody :: "CallToolRequest \<Rightarrow> bytes \<Rightarrow> bytes" where
  "overrideBody req reqBody =
     (let body = GetString req ''body'' [] in if body \<noteq> [] then body else reqBody)"

text \<open>Lines 502-510: the JSON edits; \<open>Inl\<close> is the message of the error result.\<close>

definition applyJSONEdits :: "Helpers \<Rightarrow> CallToolRequest \<Rightarrow> bytes \<Rightarrow> string + bytes" where
  "applyJSONEdits hp req reqBody =
     (let setJSON = GetStringSlice req ''set_json'' [];
          removeJSON = GetStringSlice req ''remove_json'' []
      in if length setJSON > 0 \<or> length removeJSON > 0 then
           (case h_modifyJSONBody hp reqBody setJSON removeJSON of
              Inl err \<Rightarrow> Inl (''JSON body modification failed: '' @ err)
            | Inr modifiedBody \<Rightarrow> Inr modifiedBody)
         else Inr reqBody)"

text \<open>The body after all body edits.\<close>

definition replayBody :: "Helpers \<Rightarrow> CallToolRequest \<Rightarrow> bytes \<Rightarrow> string + bytes" where
  "replayBody hp req rawRequest = applyJSONEdits hp req (overrideBody req (baseBody hp req rawRequest))"

text \<open>Lines 532-539: the timeout.\<close>

definition replayTimeout :: "Helpers \<Rightarrow> CallToolRequest \<Rightarrow> string + Duration" where
  "replayTimeout hp req =
     (let timeoutStr = GetString req ''timeout'' [] in
      if timeoutStr \<noteq> [] then
        (case h_ParseDuration hp timeoutStr of
           Inl err \<Rightarrow> Inl (''invalid timeout duration: '' @ err)
         | Inr parsed \<Rightarrow> Inr parsed)
      else Inr 0)"

text \<open>
  Lines 512-578, from the Content-Length reconciliation on: validation, target, dispatch,
  record and response. The result is the tool result (\<open>Inl\<close> the message of an error
  result), the input of the \<^verbatim>\<open>SendRequest\<close> call when one was made, and the replay store.
\<close>

definition replayDispatch ::
  "Helpers \<Rightarrow> Service \<Rightarrow> CallToolRequest \<Rightarrow> RequestStore \<Rightarrow> bytes \<Rightarrow> bytes
   \<Rightarrow> (string + ReplaySendResponse) \<times> SendRequestInput option \<times> RequestStore" where
  "replayDispatch hp sv req store headers0 reqBody =
     (let headers = h_updateContentLength hp headers0 (length reqBody);
          rawRequest = headers @ reqBody
      in if \<not> GetBool req ''force'' False
            \<and> list_ex (\<lambda>i. vi_Severity i = ''error'') (h_validateRequest hp rawRequest)
         then (Inl (''validation failed:'' @ [CHR 0x0A] @ h_formatIssues hp (h_validateRequest hp rawRequest)),
               None, store)
         else
           (case h_parseTarget hp rawRequest (GetString req ''target'' []) of
              (host, port, usesHTTPS) \<Rightarrow>
                (let replayID = sv_Generate sv in
                 case replayTimeout hp req of
                   Inl msg \<Rightarrow> (Inl msg, None, store)
                 | Inr timeout \<Rightarrow>
                     (let sendInput =
                            \<lparr>sri_RawRequest = rawRequest,
                             sri_Target = \<lparr>tg_Hostname = host, tg_Port = port, tg_UsesHTTPS = usesHTTPS\<rparr>,
                             sri_FollowRedirects = GetBool req ''follow_redirects'' False,
                             sri_Timeout = timeout\<rparr>
                      in case sv_SendRequest sv (''sectool-'' @ replayID) sendInput of
                           Inl err \<Rightarrow> (Inl (''request failed: '' @ err), Some sendInput, store)
                         | Inr result \<Rightarrow>
                             (let respHeaders = srr_Headers result;
                                  respBody = srr_Body result
                              in case h_parseResponseStatus hp respHeaders of
                                   (respCode, respStatusLine) \<Rightarrow>
                                     (Inr \<lparr>rsp_ReplayID = replayID,
                                           rsp_Duration = h_DurationString hp (srr_Duration result),
                                           rsp_Status = respCode,
                                           rsp_StatusLine = respStatusLine,
                                           rsp_RespHeaders = respHeaders,
                                           rsp_RespSize = length respBody,
                                           rsp_RespPreview =
                                             h_previewBody hp respBody (h_responsePreviewSize hp)\<rparr>,
                                      Some sendInput,
                                      Store (sv_Now sv) store replayID
                                        \<lparr>re_Headers = respHeaders, re_Body = respBody,
                                         re_Duration = srr_Duration result,
                                         re_CreatedAt = 0\<rparr>))))))"

text \<open>\<^verbatim>\<open>(m *mcpServer) handleReplaySend\<close>.\<close>

definition handleReplaySend ::
  "Helpers \<Rightarrow> Service \<Rightarrow> CallToolRequest \<Rightarrow> RequestStore
   \<Rightarrow> (string + ReplaySendResponse) \<times> SendRequestInput option \<times> RequestStore" where
  "handleReplaySend hp sv req store =
     (let flowID = GetString req ''flow_id'' [] in
      if flowID = [] then (Inl ''flow_id is required'', None, store)
      else
        (case sv_Lookup sv flowID of
           None \<Rightarrow> (Inl ''flow_id not found: run proxy_list to see available flows'', None, store)
         | Some offset \<Rightarrow>
             (case sv_GetProxyHistory sv 1 offset of
                Inl err \<Rightarrow> (Inl (''failed to fetch flow: '' @ err), None, store)
              | Inr [] \<Rightarrow> (Inl ''flow not found in proxy history'', None, store)
              | Inr (entry # others) \<Rightarrow>
                  (case replayBody hp req entry of
                     Inl msg \<Rightarrow> (Inl msg, None, store)
                   | Inr reqBody \<Rightarrow>
                       replayDispatch hp sv req store (replayHeaders hp req entry) reqBody))))"

section \<open>Byte strings: lines and decimal numbers\<close>

text \<open>
  Carriage return and line feed; \<open>CRLF\<close> separates the lines of an HTTP message.
\<close>

abbreviation CR :: char where "CR \<equiv> CHR 0x0D"
abbreviation LF :: char where "LF \<equiv> CHR 0x0A"
abbreviation CRLF :: string where "CRLF \<equiv> [CR, LF]"

text \<open>
  \<^verbatim>\<open>bytes.Split(s, "\r\n")\<close>: the pieces of a byte string between its CRLF
  separators, found from the left; there is always at least one piece.
\<close>

fun split_crlf :: "bytes \<Rightarrow> bytes list" where
  "split_crlf [] = [[]]"
| "split_crlf [c] = [[c]]"
| "split_crlf (c # d # cs) =
     (if c = CR \<and> d = LF then [] # split_crlf cs
      else (case split_crlf (d # cs) of [] \<Rightarrow> [[c]] | l # ls \<Rightarrow> (c # l) # ls))"

text \<open>
  \<^verbatim>\<open>bytes.Join(lines, "\r\n")\<close>.
\<close>

fun join_crlf :: "bytes list \<Rightarrow> bytes" where
  "join_crlf [] = []"
| "join_crlf [l] = l"
| "join_crlf (l # m # ls) = l @ CRLF @ join_crlf (m # ls)"

text \<open>
  Whether a byte string contains a CRLF.
\<close>

fun has_crlf :: "bytes \<Rightarrow> bool" where
  "has_crlf (c # d # cs) = ((c = CR \<and> d = LF) \<or> has_crlf (d # cs))"
| "has_crlf cs = False"

text \<open>
  \<^verbatim>\<open>strconv.Itoa\<close> on a length (never negative), and the reading of a decimal number
  (\<open>None\<close> when the string is empty or has a character that is no digit).
\<close>

definition digitChar :: "nat \<Rightarrow> char" where
  "digitChar d = char_of (48 + d)"

definition digitVal :: "char \<Rightarrow> nat option" where
  "digitVal c = (let n = (of_char c :: nat) in if 48 \<le> n \<and> n \<le> 57 then Some (n - 48) else None)"

fun Itoa :: "nat \<Rightarrow> string" where
  "Itoa n = (if n < 10 then [digitChar n] else Itoa (n div 10) @ [digitChar (n mod 10)])"

declare Itoa.simps [simp del]

fun parseDigits :: "nat \<Rightarrow> string \<Rightarrow> nat option" where
  "parseDigits acc [] = Some acc"
| "parseDigits acc (c # cs) =
     (case digitVal c of None \<Rightarrow> None | Some d \<Rightarrow> parseDigits (acc * 10 + d) cs)"

definition parseNat :: "string \<Rightarrow> nat option" where
  "parseNat s = (if s = [] then None else parseDigits 0 s)"

text \<open>
  ASCII lower case, as the case-insensitive comparison of header names needs it.
\<close>

definition toLower :: "char \<Rightarrow> char" where
  "toLower c = (let n = (of_char c :: nat) in if 65 \<le> n \<and> n \<le> 90 then char_of (n + 32) else c)"

subsection \<open>Lines\<close>

lemma split_crlf_nonempty: "split_crlf s \<noteq> []"
  by (induction s rule: split_crlf.induct) (auto split: list.splits)

lemma join_split_crlf: "join_crlf (split_crlf s) = s"
proof (induction s rule: split_crlf.induct)
  case (3 c d cs)
  show ?case
  proof (cases "c = CR \<and> d = LF")
    case True
    with 3 show ?thesis
      using split_crlf_nonempty [of cs] by (cases "split_crlf cs") auto
  next
    case False
    obtain l ls where e: "split_crlf (d # cs) = l # ls"
      using split_crlf_nonempty [of "d # cs"] by (cases "split_crlf (d # cs)") auto
    with 3 False have "join_crlf (l # ls) = d # cs" by simp
    then have "join_crlf ((c # l) # ls) = c # d # cs" by (cases ls) auto
    with False e show ?thesis by auto
  qed
qed simp_all

lemma split_crlf_lines_no_crlf: "l \<in> set (split_crlf s) \<Longrightarrow> \<not> has_crlf l"
proof (induction s arbitrary: l rule: split_crlf.induct)
  case (3 c d cs)
  show ?case
  proof (cases "c = CR \<and> d = LF")
    case True
    with 3 show ?thesis by auto
  next
    case False
    obtain m ms where e: "split_crlf (d # cs) = m # ms"
      using split_crlf_nonempty [of "d # cs"] by (cases "split_crlf (d # cs)") auto
    with False "3.prems" have "l = c # m \<or> l \<in> set ms" by auto
    then show ?thesis
    proof
      assume l: "l = c # m"
      have nm: "\<not> has_crlf m" using "3.IH"(2) [of m] False e by auto
      have "m = [] \<or> hd m = d"
        using e by (cases cs) (auto split: if_splits list.splits)
      with nm l False show ?thesis by (cases m) auto
    next
      assume "l \<in> set ms"
      with "3.IH"(2) False e show ?thesis by auto
    qed
  qed
qed simp_all

lemma split_crlf_line_sep:
  "\<not> has_crlf l \<Longrightarrow> split_crlf (l @ CR # LF # s) = l # split_crlf s"
proof (induction l rule: has_crlf.induct)
  case (1 c d cs)
  then show ?case by auto
qed simp_all

lemma split_join_crlf:
  "ls \<noteq> [] \<Longrightarrow> \<forall>l \<in> set ls. \<not> has_crlf l \<Longrightarrow> split_crlf (join_crlf ls) = ls"
proof (induction ls rule: join_crlf.induct)
  case 1
  then show ?case by simp
next
  case (2 l)
  then show ?case
  proof (induction l rule: has_crlf.induct)
    case (1 c d cs)
    then show ?case by (auto split: list.splits)
  qed simp_all
next
  case (3 l m ls)
  then show ?case by (simp add: split_crlf_line_sep del: split_crlf.simps)
qed


subsection \<open>Decimal numbers\<close>

lemma digitVal_digitChar: "d < 10 \<Longrightarrow> digitVal (digitChar d) = Some d"
  by (simp add: digitVal_def digitChar_def Let_def)

lemma parseDigits_snoc:
  "parseDigits acc (xs @ [c]) =
     (case parseDigits acc xs of
        None \<Rightarrow> None
      | Some m \<Rightarrow> (case digitVal c of None \<Rightarrow> None | Some d \<Rightarrow> Some (m * 10 + d)))"
  by (induction xs arbitrary: acc) (auto split: option.splits)

lemma parseDigits_Itoa: "parseDigits 0 (Itoa n) = Some n"
proof (induction n rule: Itoa.induct)
  case (1 n)
  show ?case
  proof (cases "n < 10")
    case True
    then show ?thesis by (simp add: Itoa.simps [of n] digitVal_digitChar)
  next
    case False
    with 1 have "parseDigits 0 (Itoa (n div 10)) = Some (n div 10)" by simp
    with False show ?thesis
      by (simp add: Itoa.simps [of n] parseDigits_snoc digitVal_digitChar)
  qed
qed

lemma Itoa_nonempty: "Itoa n \<noteq> []"
  by (simp add: Itoa.simps [of n])

lemma parseNat_Itoa: "parseNat (Itoa n) = Some n"
  by (simp add: parseNat_def Itoa_nonempty parseDigits_Itoa)

lemma Itoa_digits: "c \<in> set (Itoa n) \<Longrightarrow> digitVal c \<noteq> None"
proof (induction n rule: Itoa.induct)
  case (1 n)
  show ?case
  proof (cases "n < 10")
    case True
    with "1.prems" show ?thesis by (simp add: Itoa.simps [of n] digitVal_digitChar)
  next
    case False
    with "1.prems" have "c \<in> set (Itoa (n div 10)) \<or> c = digitChar (n mod 10)"
      by (auto simp: Itoa.simps [of n])
    with 1 False show ?thesis by (auto simp: digitVal_digitChar)
  qed
qed


section \<open>Content-Length reconciliation\<close>

text \<open>
  How a header block is read. Its header lines are the lines before the first empty line;
  a line is a Content-Length header when the name before its colon is
  \<^verbatim>\<open>content-length\<close> in any case; the value of a header is what follows the colon, without
  the leading spaces. \<open>contentLengthValues\<close> lists the values of all Content-Length
  headers of a block, each read as a decimal number.
\<close>

definition isContentLength :: "bytes \<Rightarrow> bool" where
  "isContentLength line =
     (CHR '':'' \<in> set line
      \<and> map toLower (takeWhile (\<lambda>c. c \<noteq> CHR '':'') line) = ''content-length'')"

definition headerLines :: "bytes \<Rightarrow> bytes list" where
  "headerLines h = takeWhile (\<lambda>l. l \<noteq> []) (split_crlf h)"

definition headerValue :: "bytes \<Rightarrow> bytes" where
  "headerValue line = dropWhile (\<lambda>c. c = CHR '' '') (drop 1 (dropWhile (\<lambda>c. c \<noteq> CHR '':'') line))"

definition contentLengthValues :: "bytes \<Rightarrow> nat option list" where
  "contentLengthValues h = map (\<lambda>l. parseNat (headerValue l)) (filter isContentLength (headerLines h))"

text \<open>
  Modelled from the spec: \<^verbatim>\<open>updateContentLength(headers, length)\<close> of httputil.go, a
  file that is not among the sources. The specification says: recompute Content-Length from
  the final body bytes; any existing header is replaced. The model drops every existing
  Content-Length header line of the block and ends the block with one new line
  \<^verbatim>\<open>Content-Length: n\<close> and the empty line that closes a header block.
\<close>

definition updateContentLength :: "bytes \<Rightarrow> nat \<Rightarrow> bytes" where
  "updateContentLength headers n =
     join_crlf (filter (\<lambda>l. \<not> isContentLength l) (headerLines headers)
                @ [''Content-Length: '' @ Itoa n, [], []])"

lemma digit_not_space: "digitVal c \<noteq> None \<Longrightarrow> c \<noteq> CHR '' '' \<and> c \<noteq> CR \<and> c \<noteq> LF"
  by (auto simp: digitVal_def Let_def)

lemma has_crlf_append_digits:
  "\<forall>c \<in> set ds. c \<noteq> CR \<Longrightarrow> \<not> has_crlf (''Content-Length: '' @ ds)"
  by (induction ds rule: has_crlf.induct) auto

lemma toLower_Content_Length: "map toLower ''Content-Length'' = ''content-length''"
  by code_simp

lemma takeWhile_Content_Length:
  "takeWhile (\<lambda>c. c \<noteq> CHR '':'') (''Content-Length: '' @ ds) = ''Content-Length''"
  by simp

lemma isContentLength_new: "isContentLength (''Content-Length: '' @ ds)"
  unfolding isContentLength_def takeWhile_Content_Length toLower_Content_Length by simp

lemma headerValue_new:
  "ds \<noteq> [] \<Longrightarrow> hd ds \<noteq> CHR '' '' \<Longrightarrow> headerValue (''Content-Length: '' @ ds) = ds"
  by (cases ds) (simp_all add: headerValue_def)

lemma contentLengthValues_updateContentLength:
  "contentLengthValues (updateContentLength h n) = [Some n]"
proof -
  define F where "F = filter (\<lambda>l. \<not> isContentLength l) (headerLines h)"
  define cl where "cl = ''Content-Length: '' @ Itoa n"
  have Fne: "\<forall>l \<in> set F. l \<noteq> []"
    unfolding F_def headerLines_def by (auto dest: set_takeWhileD)
  have Fnc: "\<forall>l \<in> set F. \<not> has_crlf l"
    unfolding F_def headerLines_def
    by (auto dest!: set_takeWhileD split_crlf_lines_no_crlf)
  have Fcl: "filter isContentLength F = []"
    unfolding F_def by (induction "headerLines h") auto
  have dig: "\<forall>c \<in> set (Itoa n). c \<noteq> CR \<and> c \<noteq> CHR '' ''"
    using Itoa_digits digit_not_space by blast
  have clnc: "\<not> has_crlf cl"
    unfolding cl_def using dig by (intro has_crlf_append_digits) blast
  have clne: "cl \<noteq> []" by (simp add: cl_def)
  have iscl: "isContentLength cl" unfolding cl_def by (rule isContentLength_new)
  have "hd (Itoa n) \<in> set (Itoa n)" using Itoa_nonempty by simp
  with dig have "hd (Itoa n) \<noteq> CHR '' ''" by blast
  then have val: "headerValue cl = Itoa n"
    unfolding cl_def using Itoa_nonempty by (intro headerValue_new)
  have "split_crlf (join_crlf (F @ [cl, [], []])) = F @ [cl, [], []]"
    using Fnc clnc by (intro split_join_crlf) auto
  then have "headerLines (updateContentLength h n) = takeWhile (\<lambda>l. l \<noteq> []) (F @ [cl, [], []])"
    by (simp add: headerLines_def updateContentLength_def F_def cl_def)
  also have "\<dots> = F @ [cl]"
    using Fne clne by (simp add: takeWhile_append2)
  finally have "headerLines (updateContentLength h n) = F @ [cl]" .
  then show ?thesis
    by (simp add: contentLengthValues_def Fcl iscl val parseNat_Itoa)
qed

text \<open>
  Modelled from the spec: \<^verbatim>\<open>splitHeadersBody\<close> of httputil.go (not among the
  sources; its test \<^verbatim>\<open>TestSplitHeadersBody\<close> is). The raw bytes are split on the first
  blank-line separator; the header block keeps the separator; without a separator all
  bytes are headers and the body is empty.
\<close>

fun splitHeadersBody :: "bytes \<Rightarrow> bytes \<times> bytes" where
  "splitHeadersBody [] = ([], [])"
| "splitHeadersBody (a # rest) =
     (if a = CR \<and> take 3 rest = [LF, CR, LF] then ([CR, LF, CR, LF], drop 3 rest)
      else (case splitHeadersBody rest of (h, body) \<Rightarrow> (a # h, body)))"

lemma splitHeadersBody_tests:
  "splitHeadersBody (''GET / HTTP/1.1'' @ CRLF @ ''Host: example.com'' @ CRLF @ CRLF @ ''body here'')
     = (''GET / HTTP/1.1'' @ CRLF @ ''Host: example.com'' @ CRLF @ CRLF, ''body here'')"
  "splitHeadersBody (''GET / HTTP/1.1'' @ CRLF @ ''Host: example.com'' @ CRLF @ CRLF)
     = (''GET / HTTP/1.1'' @ CRLF @ ''Host: example.com'' @ CRLF @ CRLF, [])"
  "splitHeadersBody (''POST / HTTP/1.1'' @ CRLF @ CRLF @ [CHR 0x00, CHR 0x01, CHR 0x02])
     = (''POST / HTTP/1.1'' @ CRLF @ CRLF, [CHR 0x00, CHR 0x01, CHR 0x02])"
  "splitHeadersBody ''malformed request'' = (''malformed request'', [])"
  by code_simp+

lemma splitHeadersBody_append: "fst (splitHeadersBody raw) @ snd (splitHeadersBody raw) = raw"
proof (induction raw)
  case Nil
  show ?case by simp
next
  case (Cons a rest)
  show ?case
  proof (cases "a = CR \<and> take 3 rest = [LF, CR, LF]")
    case True
    then have "[LF, CR, LF] @ drop 3 rest = rest" by (metis append_take_drop_id)
    with True show ?thesis by simp
  next
    case False
    with Cons show ?thesis by (auto split: prod.splits)
  qed
qed

lemma has_crlf_tl: "\<not> has_crlf (c # cs) \<Longrightarrow> \<not> has_crlf cs"
  by (cases cs) auto

lemma splitHeadersBody_line:
  "\<not> has_crlf l \<Longrightarrow> t = [] \<or> hd t \<noteq> LF
   \<Longrightarrow> splitHeadersBody (l @ t) = (l @ fst (splitHeadersBody t), snd (splitHeadersBody t))"
proof (induction l)
  case Nil
  show ?case by simp
next
  case (Cons c cs)
  have nomatch: "\<not> (c = CR \<and> take 3 (cs @ t) = [LF, CR, LF])"
  proof
    assume m: "c = CR \<and> take 3 (cs @ t) = [LF, CR, LF]"
    show False
    proof (cases cs)
      case Nil
      with m Cons.prems(2) show False by (cases t) auto
    next
      case (Cons d ds)
      with m have "d = LF" by simp
      with m Cons Cons.prems(1) show False by simp
    qed
  qed
  from Cons.prems(1) have "\<not> has_crlf cs" by (rule has_crlf_tl)
  with Cons.IH Cons.prems(2) have "splitHeadersBody (cs @ t) = (cs @ fst (splitHeadersBody t), snd (splitHeadersBody t))"
    by simp
  moreover have "splitHeadersBody ((c # cs) @ t) = (case splitHeadersBody (cs @ t) of (h, body) \<Rightarrow> (c # h, body))"
    by (simp only: append_Cons splitHeadersBody.simps nomatch if_False)
  ultimately show ?case by simp
qed

lemma splitHeadersBody_sep:
  assumes "\<not> has_crlf m" and "m \<noteq> []"
  shows "splitHeadersBody (CR # LF # m @ CR # LF # u)
           = (CR # LF # fst (splitHeadersBody (m @ CR # LF # u)), snd (splitHeadersBody (m @ CR # LF # u)))"
proof -
  have "take 2 (m @ CR # LF # u) \<noteq> [CR, LF]"
  proof (cases m)
    case Nil
    with assms(2) show ?thesis by simp
  next
    case (Cons a as)
    with assms(1) show ?thesis by (cases as) auto
  qed
  then have "take 3 (LF # m @ CR # LF # u) \<noteq> [LF, CR, LF]"
    by (simp add: take_Cons' numeral_3_eq_3 numeral_2_eq_2)
  then show ?thesis by (simp split: prod.splits)
qed

lemma join_crlf_Cons: "ls \<noteq> [] \<Longrightarrow> join_crlf (l # ls) = l @ CR # LF # join_crlf ls"
  by (cases ls) simp_all

lemma join_crlf_end: "ls \<noteq> [] \<Longrightarrow> join_crlf (ls @ [[], []]) = join_crlf ls @ [CR, LF, CR, LF]"
proof (induction ls rule: join_crlf.induct)
  case 1
  then show ?case by simp
next
  case (2 l)
  then show ?case by simp
next
  case (3 l m ls)
  then show ?case by simp
qed

lemma splitHeadersBody_lines:
  "ls \<noteq> [] \<Longrightarrow> \<forall>l \<in> set ls. l \<noteq> [] \<and> \<not> has_crlf l
   \<Longrightarrow> splitHeadersBody (join_crlf ls @ CR # LF # CR # LF # body) = (join_crlf ls @ [CR, LF, CR, LF], body)"
proof (induction ls rule: join_crlf.induct)
  case 1
  then show ?case by simp
next
  case (2 l)
  then have "\<not> has_crlf l" by simp
  from splitHeadersBody_line [OF this, of "CR # LF # CR # LF # body"] show ?case by simp
next
  case (3 l m ls)
  then have nl: "\<not> has_crlf l" and nm: "\<not> has_crlf m" and me: "m \<noteq> []" by simp_all
  from 3 have ih: "splitHeadersBody (join_crlf (m # ls) @ CR # LF # CR # LF # body)
                     = (join_crlf (m # ls) @ [CR, LF, CR, LF], body)"
    by simp
  obtain u where x: "join_crlf (m # ls) @ CR # LF # CR # LF # body = m @ CR # LF # u"
    by (cases ls) auto
  from splitHeadersBody_sep [OF nm me, of u] x ih
  have s: "splitHeadersBody (CR # LF # join_crlf (m # ls) @ CR # LF # CR # LF # body)
             = (CR # LF # join_crlf (m # ls) @ [CR, LF, CR, LF], body)"
    by simp
  from splitHeadersBody_line [OF nl, of "CR # LF # join_crlf (m # ls) @ CR # LF # CR # LF # body"] s
  show ?case by simp
qed

lemma splitHeadersBody_updateContentLength:
  "splitHeadersBody (updateContentLength h n @ body) = (updateContentLength h n, body)"
proof -
  define F where "F = filter (\<lambda>l. \<not> isContentLength l) (headerLines h)"
  define cl where "cl = ''Content-Length: '' @ Itoa n"
  have Fne: "\<forall>l \<in> set F. l \<noteq> []"
    unfolding F_def headerLines_def by (auto dest: set_takeWhileD)
  have Fnc: "\<forall>l \<in> set F. \<not> has_crlf l"
    unfolding F_def headerLines_def
    by (auto dest!: set_takeWhileD split_crlf_lines_no_crlf)
  have dig: "\<forall>c \<in> set (Itoa n). c \<noteq> CR"
    using Itoa_digits digit_not_space by blast
  have clnc: "\<not> has_crlf cl"
    unfolding cl_def using dig by (intro has_crlf_append_digits) blast
  have clne: "cl \<noteq> []" by (simp add: cl_def)
  have "updateContentLength h n = join_crlf ((F @ [cl]) @ [[], []])"
    by (simp add: updateContentLength_def F_def cl_def)
  also have "\<dots> = join_crlf (F @ [cl]) @ [CR, LF, CR, LF]"
    by (rule join_crlf_end) simp
  finally have u: "updateContentLength h n = join_crlf (F @ [cl]) @ [CR, LF, CR, LF]" .
  have "splitHeadersBody (join_crlf (F @ [cl]) @ CR # LF # CR # LF # body)
          = (join_crlf (F @ [cl]) @ [CR, LF, CR, LF], body)"
    using Fne Fnc clnc clne by (intro splitHeadersBody_lines) auto
  then show ?thesis
    unfolding u by simp
qed

section \<open>Base64\<close>

text \<open>
  \<^verbatim>\<open>base64.StdEncoding\<close> of Go's standard library: the alphabet of RFC 4648 with
  padding. \<^verbatim>\<open>EncodeToString\<close> is what the handler calls; \<open>DecodeString\<close> is the decoding
  a client applies to the body it receives (padded input without line breaks).
\<close>

definition encodeStd :: string where
  "encodeStd = ''ABCDEFGHIJKLMNOPQRSTUVWXYZabcdefghijklmnopqrstuvwxyz0123456789+/''"

definition enc :: "nat \<Rightarrow> char" where
  "enc i = encodeStd ! i"



fun EncodeToString :: "bytes \<Rightarrow> string" where
  "EncodeToString [] = []"
| "EncodeToString [a] =
     (let x = (of_char a :: nat) in [enc (x div 4), enc ((x mod 4) * 16), CHR ''='', CHR ''=''])"
| "EncodeToString [a, b] =
     (let x = (of_char a :: nat); y = (of_char b :: nat)
      in [enc (x div 4), enc ((x mod 4) * 16 + y div 16), enc ((y mod 16) * 4), CHR ''=''])"
| "EncodeToString (a # b # c # rest) =
     (let x = (of_char a :: nat); y = (of_char b :: nat); z = (of_char c :: nat)
      in [enc (x div 4), enc ((x mod 4) * 16 + y div 16), enc ((y mod 16) * 4 + z div 64),
          enc (z mod 64)] @ EncodeToString rest)"







lemma byte_bound: "(of_char (c :: char) :: nat) < 256"
  by simp









section \<open>Replay: what is sent, and what a later get returns\<close>

text \<open>\<^verbatim>\<open>(m *mcpServer) handleReplayGet\<close>.\<close>

definition handleReplayGet :: "Helpers \<Rightarrow> CallToolRequest \<Rightarrow> RequestStore \<Rightarrow> string + ReplayGetResponse" where
  "handleReplayGet hp req store =
     (let replayID = GetString req ''replay_id'' [] in
      if replayID = [] then Inl ''replay_id is required''
      else
        (case Get store replayID of
           None \<Rightarrow>
             Inl ''replay not found: replay results are ephemeral and cleared on service restart''
         | Some result \<Rightarrow>
             (case h_parseResponseStatus hp (re_Headers result) of
                (respCode, respStatusLine) \<Rightarrow>
                  Inr \<lparr>rg_ReplayID = replayID,
                       rg_Duration = h_DurationString hp (re_Duration result),
                       rg_Status = respCode,
                       rg_StatusLine = respStatusLine,
                       rg_RespHeaders = re_Headers result,
                       rg_RespBody = EncodeToString (re_Body result),
                       rg_RespSize = length (re_Body result)\<rparr>)))"

text \<open>
  A request to replay, for the examples: a form post whose body the caller replaces.
\<close>

definition demoRequest :: bytes where
  "demoRequest =
     ''POST /api/items?id=7 HTTP/1.1'' @ CRLF @ ''Host: example.com'' @ CRLF
     @ ''content-length: 13'' @ CRLF @ CRLF @ ''a=1&b=2&c=33''"

definition demoHelpers :: Helpers where
  "demoHelpers =
     \<lparr>h_modifyRequestLine = (\<lambda>raw opts. raw),
      h_splitHeadersBody = splitHeadersBody,
      h_applyHeaderModifications = (\<lambda>headers r. headers),
      h_modifyJSONBody = (\<lambda>body setJSON removeJSON. Inl ''body is not JSON''),
      h_updateContentLength = updateContentLength,
      h_validateRequest = (\<lambda>raw. []),
      h_formatIssues = (\<lambda>issues. []),
      h_parseTarget = (\<lambda>raw target. (''example.com'', 80, False)),
      h_parseResponseStatus = (\<lambda>headers. (200, ''HTTP/1.1 200 OK'')),
      h_previewBody = (\<lambda>body n. take n body),
      h_responsePreviewSize = 100,
      h_ParseDuration = (\<lambda>s. Inl ''invalid duration''),
      h_DurationString = (\<lambda>d. ''12ms'')\<rparr>"

definition demoService :: Service where
  "demoService =
     \<lparr>sv_Lookup = (\<lambda>flowID. if flowID = ''f1'' then Some 0 else None),
      sv_GetProxyHistory = (\<lambda>count offset. Inr [demoRequest]),
      sv_SendRequest =
        (\<lambda>name input. Inr \<lparr>srr_Headers = ''HTTP/1.1 200 OK'' @ CRLF @ CRLF, srr_Body = ''hello'',
                            srr_Duration = 12000000\<rparr>),
      sv_Generate = ''r1'',
      sv_Now = 1000\<rparr>"

definition demoSend :: CallToolRequest where
  "demoSend = [''flow_id'' \<mapsto> AString ''f1'', ''body'' \<mapsto> AString ''a=3'']"

definition demoSendNoBody :: CallToolRequest where
  "demoSendNoBody = [''flow_id'' \<mapsto> AString ''f1'', ''body'' \<mapsto> AString []]"


lemma replayDispatch_sent:
  assumes "fst (snd (replayDispatch hp sv req store headers0 reqBody)) = Some inp"
  shows "sri_RawRequest inp = h_updateContentLength hp headers0 (length reqBody) @ reqBody"
  using assms
  by (auto simp: replayDispatch_def Let_def split: if_splits prod.splits sum.splits)

lemma handleReplaySend_sent:
  assumes "fst (snd (handleReplaySend hp sv req store)) = Some inp"
  shows "\<exists>offset entry others reqBody.
           sv_Lookup sv (GetString req ''flow_id'' []) = Some offset
         \<and> sv_GetProxyHistory sv 1 offset = Inr (entry # others)
         \<and> replayBody hp req entry = Inr reqBody
         \<and> sri_RawRequest inp
             = h_updateContentLength hp (replayHeaders hp req entry) (length reqBody) @ reqBody"
  using assms
  by (auto simp: handleReplaySend_def Let_def dest: replayDispatch_sent
        split: if_splits option.splits sum.splits list.splits)



lemma overrideBody_absent:
  assumes "req ''body'' = None \<or> req ''body'' = Some (AString [])"
  shows "overrideBody req reqBody = reqBody"
  using assms by (auto simp: overrideBody_def GetString_def)

text \<open>
  Claim C9. When the \<^verbatim>\<open>body\<close> argument is absent or the empty string, the override step
  keeps the body it is given; a request that the handler sends then carries the body of
  the base flow with the JSON edits applied to it, and without JSON edits that body
  itself.
\<close>

theorem replay_send_empty_body_keeps_base:
  assumes "req ''body'' = None \<or> req ''body'' = Some (AString [])"
  shows "overrideBody req reqBody = reqBody
       \<and> (\<forall>inp. fst (snd (handleReplaySend hp sv req store)) = Some inp \<longrightarrow>
            (\<exists>offset entry others b.
                sv_Lookup sv (GetString req ''flow_id'' []) = Some offset
              \<and> sv_GetProxyHistory sv 1 offset = Inr (entry # others)
              \<and> applyJSONEdits hp req (baseBody hp req entry) = Inr b
              \<and> sri_RawRequest inp
                  = h_updateContentLength hp (replayHeaders hp req entry) (length b) @ b))
       \<and> (GetStringSlice req ''set_json'' [] = [] \<and> GetStringSlice req ''remove_json'' [] = []
            \<longrightarrow> applyJSONEdits hp req reqBody = Inr reqBody)"
proof -
  have a: "overrideBody req reqBody = reqBody" for reqBody
    using assms by (rule overrideBody_absent)
  have b: "\<exists>offset entry others b.
                sv_Lookup sv (GetString req ''flow_id'' []) = Some offset
              \<and> sv_GetProxyHistory sv 1 offset = Inr (entry # others)
              \<and> applyJSONEdits hp req (baseBody hp req entry) = Inr b
              \<and> sri_RawRequest inp
                  = h_updateContentLength hp (replayHeaders hp req entry) (length b) @ b"
    if "fst (snd (handleReplaySend hp sv req store)) = Some inp" for inp
    using handleReplaySend_sent [OF that] by (simp add: replayBody_def a)
  have c: "GetStringSlice req ''set_json'' [] = [] \<and> GetStringSlice req ''remove_json'' [] = []
            \<longrightarrow> applyJSONEdits hp req reqBody = Inr reqBody"
    by (simp add: applyJSONEdits_def)
  from a b c show ?thesis by blast
qed

lemma demo_send_no_body:
  "fst (snd (handleReplaySend demoHelpers demoService demoSendNoBody Map.empty)) =
   Some \<lparr>sri_RawRequest = ''POST /api/items?id=7 HTTP/1.1'' @ CRLF @ ''Host: example.com'' @ CRLF
     @ ''Content-Length: 12'' @ CRLF @ CRLF @ ''a=1&b=2&c=33'',
     sri_Target = \<lparr>tg_Hostname = ''example.com'', tg_Port = 80, tg_UsesHTTPS = False\<rparr>,
     sri_FollowRedirects = False, sri_Timeout = 0\<rparr>"
  by code_simp

theorem replay_send_empty_body_keeps_base_witness:
  "overrideBody demoSendNoBody ''a=1&b=2&c=33'' = ''a=1&b=2&c=33''
   \<and> fst (snd (handleReplaySend demoHelpers demoService demoSendNoBody Map.empty)) =
       Some \<lparr>sri_RawRequest = ''POST /api/items?id=7 HTTP/1.1'' @ CRLF @ ''Host: example.com'' @ CRLF
         @ ''Content-Length: 12'' @ CRLF @ CRLF @ ''a=1&b=2&c=33'',
         sri_Target = \<lparr>tg_Hostname = ''example.com'', tg_Port = 80, tg_UsesHTTPS = False\<rparr>,
         sri_FollowRedirects = False, sri_Timeout = 0\<rparr>
   \<and> applyJSONEdits demoHelpers demoSendNoBody ''a=1&b=2&c=33'' = Inr ''a=1&b=2&c=33''"
proof -
  have h: "demoSendNoBody ''body'' = None \<or> demoSendNoBody ''body'' = Some (AString [])"
    by (simp add: demoSendNoBody_def)
  have j: "GetStringSlice demoSendNoBody ''set_json'' [] = []
         \<and> GetStringSlice demoSendNoBody ''remove_json'' [] = []"
    by (simp add: GetStringSlice_def demoSendNoBody_def)
  from replay_send_empty_body_keeps_base
         [where req = demoSendNoBody and reqBody = "''a=1&b=2&c=33''" and hp = demoHelpers
            and sv = demoService and store = Map.empty, OF h]
       j demo_send_no_body
  show ?thesis by blast
qed

text \<open>
  Claim C1. With \<^verbatim>\<open>updateContentLength\<close> as the specification describes it, every request
  that the handler sends is a header block followed by the body that results from the
  body edits (the literal override, then the JSON edits); splitting the request on its
  first blank line gives back this header block and this body; and the header block has
  exactly one Content-Length header, whose value is the length of that body: whatever the
  base request holds, and whatever the other helpers and the edits are.
\<close>

theorem replay_send_content_length:
  assumes "h_updateContentLength hp = updateContentLength"
    and "fst (snd (handleReplaySend hp sv req store)) = Some inp"
  shows "\<exists>offset entry others headers body.
           sv_Lookup sv (GetString req ''flow_id'' []) = Some offset
         \<and> sv_GetProxyHistory sv 1 offset = Inr (entry # others)
         \<and> replayBody hp req entry = Inr body
         \<and> sri_RawRequest inp = headers @ body
         \<and> splitHeadersBody (sri_RawRequest inp) = (headers, body)
         \<and> contentLengthValues headers = [Some (length body)]"
proof -
  from handleReplaySend_sent [OF assms(2)] obtain offset entry others reqBody where
    l: "sv_Lookup sv (GetString req ''flow_id'' []) = Some offset"
    and g: "sv_GetProxyHistory sv 1 offset = Inr (entry # others)"
    and b: "replayBody hp req entry = Inr reqBody"
    and r: "sri_RawRequest inp
             = h_updateContentLength hp (replayHeaders hp req entry) (length reqBody) @ reqBody"
    by blast
  have c: "contentLengthValues (updateContentLength (replayHeaders hp req entry) (length reqBody))
          = [Some (length reqBody)]"
    by (rule contentLengthValues_updateContentLength)
  have s: "splitHeadersBody (updateContentLength (replayHeaders hp req entry) (length reqBody) @ reqBody)
          = (updateContentLength (replayHeaders hp req entry) (length reqBody), reqBody)"
    by (rule splitHeadersBody_updateContentLength)
  from l g b r c s assms(1) show ?thesis by auto
qed

lemma demo_send:
  "fst (snd (handleReplaySend demoHelpers demoService demoSend Map.empty)) =
   Some \<lparr>sri_RawRequest = ''POST /api/items?id=7 HTTP/1.1'' @ CRLF @ ''Host: example.com'' @ CRLF
     @ ''Content-Length: 3'' @ CRLF @ CRLF @ ''a=3'',
     sri_Target = \<lparr>tg_Hostname = ''example.com'', tg_Port = 80, tg_UsesHTTPS = False\<rparr>,
     sri_FollowRedirects = False, sri_Timeout = 0\<rparr>"
  by code_simp

lemma demo_replayBody: "replayBody demoHelpers demoSend demoRequest = Inr ''a=3''"
  by code_simp

theorem replay_send_content_length_witness:
  "\<exists>headers.
     splitHeadersBody
       (''POST /api/items?id=7 HTTP/1.1'' @ CRLF @ ''Host: example.com'' @ CRLF
        @ ''Content-Length: 3'' @ CRLF @ CRLF @ ''a=3'') = (headers, ''a=3'')
     \<and> contentLengthValues headers = [Some 3]"
proof -
  have u: "h_updateContentLength demoHelpers = updateContentLength"
    by (simp add: demoHelpers_def)
  from replay_send_content_length [OF u demo_send] obtain offset entry others headers body where
    g: "sv_GetProxyHistory demoService 1 offset = Inr (entry # others)"
    and b: "replayBody demoHelpers demoSend entry = Inr body"
    and r: "splitHeadersBody
       (''POST /api/items?id=7 HTTP/1.1'' @ CRLF @ ''Host: example.com'' @ CRLF
        @ ''Content-Length: 3'' @ CRLF @ CRLF @ ''a=3'') = (headers, body)"
    and c: "contentLengthValues headers = [Some (length body)]"
    by auto
  from g have "entry = demoRequest" by (simp add: demoService_def)
  with b demo_replayBody have "body = ''a=3''" by simp
  with r c show ?thesis by auto
qed




text \<open>
  Validation gates the dispatch (lines 515-520): when the validator reports an issue of
  severity \<^verbatim>\<open>error\<close> on the rebuilt request and \<^verbatim>\<open>force\<close> is not set, the handler
  answers with an error result, sends nothing and leaves the replay store as it was.
\<close>

theorem replay_send_validation_blocks:
  assumes "\<not> GetBool req ''force'' False"
    and "list_ex (\<lambda>i. vi_Severity i = ''error'')
           (h_validateRequest hp (h_updateContentLength hp headers0 (length reqBody) @ reqBody))"
  shows "\<exists>msg. replayDispatch hp sv req store headers0 reqBody = (Inl msg, None, store)"
  using assms by (simp add: replayDispatch_def Let_def)

theorem replay_send_validation_blocks_witness:
  "\<exists>msg. replayDispatch
            (demoHelpers\<lparr>h_validateRequest :=
               (\<lambda>raw. [\<lparr>vi_Severity = ''error'', vi_Message = ''missing Host header''\<rparr>])\<rparr>)
            demoService demoSend NewRequestStore ''GET / HTTP/1.1'' ''a=3''
          = (Inl msg, None, NewRequestStore)"
proof -
  have f: "\<not> GetBool demoSend ''force'' False"
    by (simp add: GetBool_def demoSend_def)
  show ?thesis
    by (rule replay_send_validation_blocks [OF f]) simp
qed

text \<open>
  A replay identifier that the store does not hold (lines 588-591): \<^verbatim>\<open>replay_get\<close> answers
  with the error result that names the ephemeral nature of replay results.
\<close>

theorem replay_get_unknown_id:
  assumes "Get store rid = None" and "rid \<noteq> []"
  shows "handleReplayGet hp [''replay_id'' \<mapsto> AString rid] store =
           Inl ''replay not found: replay results are ephemeral and cleared on service restart''"
  using assms by (simp add: handleReplayGet_def GetString_def)

theorem replay_get_unknown_id_witness:
  "handleReplayGet demoHelpers [''replay_id'' \<mapsto> AString ''zzz''] NewRequestStore =
     Inl ''replay not found: replay results are ephemeral and cleared on service restart''"
proof -
  have g: "Get NewRequestStore ''zzz'' = None"
    by (simp add: Get_def NewRequestStore_def)
  show ?thesis
    by (rule replay_get_unknown_id [OF g]) simp
qed

section \<open>Status-line parsing\<close>

text \<open>
  \<^verbatim>\<open>bytes.HasPrefix\<close> with the rest after the prefix: \<open>None\<close> when the prefix does not
  match.
\<close>

fun stripPrefix :: "string \<Rightarrow> string \<Rightarrow> string option" where
  "stripPrefix [] s = Some s"
| "stripPrefix (p # ps) [] = None"
| "stripPrefix (p # ps) (c # cs) = (if p = c then stripPrefix ps cs else None)"

text \<open>
  Modelled from the spec: \<^verbatim>\<open>readResponseStatusCode\<close> of httputil.go, a file that is not
  among the sources (its test \<^verbatim>\<open>TestReadResponseStatusCode\<close> is). The specification says:
  status-line parsing accepts HTTP/1.0, HTTP/1.1, HTTP/2 and HTTP/2.0; the status code must
  be a three-digit integer in the range 100 to 599; outside this range the parse fails to
  zero. The model reads one of the four versions, one space and three decimal digits that
  no fourth digit follows.
\<close>

definition statusVersions :: "string list" where
  "statusVersions = [''HTTP/1.0'', ''HTTP/1.1'', ''HTTP/2.0'', ''HTTP/2'']"

fun afterVersion :: "string list \<Rightarrow> bytes \<Rightarrow> bytes option" where
  "afterVersion [] resp = None"
| "afterVersion (v # vs) resp =
     (case stripPrefix (v @ '' '') resp of Some rest \<Rightarrow> Some rest | None \<Rightarrow> afterVersion vs resp)"

definition statusCodeOf :: "nat \<Rightarrow> nat \<Rightarrow> nat \<Rightarrow> int" where
  "statusCodeOf a b c = int (100 * a + 10 * b + c)"

definition readResponseStatusCode :: "bytes \<Rightarrow> int" where
  "readResponseStatusCode resp =
     (case afterVersion statusVersions resp of
        None \<Rightarrow> 0
      | Some rest \<Rightarrow>
          (case rest of
             d1 # d2 # d3 # after \<Rightarrow>
               (case (digitVal d1, digitVal d2, digitVal d3) of
                  (Some a, Some b, Some c) \<Rightarrow>
                    if after \<noteq> [] \<and> digitVal (hd after) \<noteq> None then 0
                    else if 100 \<le> statusCodeOf a b c \<and> statusCodeOf a b c \<le> 599
                      then statusCodeOf a b c
                    else 0
                | _ \<Rightarrow> 0)
           | _ \<Rightarrow> 0))"

lemma stripPrefix_Some: "stripPrefix p s = Some r \<longleftrightarrow> s = p @ r"
  by (induction p s rule: stripPrefix.induct) auto

lemma afterVersion_Some:
  "afterVersion vs resp = Some rest \<Longrightarrow> \<exists>v \<in> set vs. resp = v @ '' '' @ rest"
proof (induction vs)
  case Nil
  then show ?case by simp
next
  case (Cons v vs)
  show ?case
  proof (cases "stripPrefix (v @ '' '') resp")
    case None
    with Cons show ?thesis by auto
  next
    case (Some r)
    with Cons.prems have "r = rest" by simp
    with Some have "resp = (v @ '' '') @ rest" by (simp only: stripPrefix_Some)
    then show ?thesis by simp
  qed
qed

lemma afterVersion_accepts:
  "v \<in> set statusVersions \<Longrightarrow> afterVersion statusVersions (v @ CHR '' '' # rest) = Some rest"
  by (auto simp: statusVersions_def)

text \<open>
  The cases of \<^verbatim>\<open>TestReadResponseStatusCode\<close>, and the code 099 of the
  specification.
\<close>

lemma readResponseStatusCode_tests:
  "readResponseStatusCode (''HTTP/1.1 200 OK'' @ CRLF @ ''Content-Type: text/html'' @ CRLF @ CRLF @ ''<html>'') = 200"
  "readResponseStatusCode (''HTTP/1.0 404 Not Found'' @ CRLF @ CRLF) = 404"
  "readResponseStatusCode (''HTTP/2 200'' @ CRLF @ ''Content-Type: application/json'' @ CRLF @ CRLF @ ''{}'') = 200"
  "readResponseStatusCode (''HTTP/2.0 500 Internal Server Error'' @ CRLF @ CRLF) = 500"
  "readResponseStatusCode (''HTTP/1.1 204 No Content'' @ CRLF @ CRLF) = 204"
  "readResponseStatusCode (''HTTP/1.1 200 OK'' @ [LF] @ ''Content-Type: text/html'' @ [LF, LF] @ ''<html>'') = 200"
  "readResponseStatusCode (''HTTP/1.1 200 OK'' @ CRLF @ ''Content-Type: image/png'' @ CRLF @ CRLF
      @ [CHR 0x89, CHR 0x50, CHR 0x4E, CHR 0x47]) = 200"
  "readResponseStatusCode (''HTTP/1.1 301 Moved Permanently'' @ CRLF @ ''Location: /new'' @ CRLF @ CRLF) = 301"
  "readResponseStatusCode (''HTTP/1.1 200 OK'' @ CRLF) = 200"
  "readResponseStatusCode (''HTTP/1.1 200'' @ CRLF @ CRLF) = 200"
  "readResponseStatusCode [] = 0"
  "readResponseStatusCode (''GET / HTTP/1.1'' @ CRLF) = 0"
  "readResponseStatusCode (''HTTP/1.1200OK'' @ CRLF) = 0"
  "readResponseStatusCode (''HTTP/1.1 ABC OK'' @ CRLF) = 0"
  "readResponseStatusCode (''HTTP/1.1 99 Too Low'' @ CRLF) = 0"
  "readResponseStatusCode (''HTTP/1.1 600 Too High'' @ CRLF) = 0"
  "readResponseStatusCode ''HTTP/1.1 20'' = 0"
  "readResponseStatusCode (''HTTP/1.1 099 Low'' @ CRLF) = 0"
  by code_simp+

text \<open>
  Claim C7. A status line that starts with one of the four accepted versions, a space and
  three digits (with no fourth digit behind them) parses to the number the digits spell
  when that number is between 100 and 599, and to 0 otherwise. For every input the result
  is 0 or a number between 100 and 599, and it is not 0 only for an input of that form.
\<close>

theorem readResponseStatusCode_spec:
  "(\<forall>v a b c d1 d2 d3 after.
      v \<in> set statusVersions \<and> digitVal d1 = Some a \<and> digitVal d2 = Some b \<and> digitVal d3 = Some c
      \<and> (after = [] \<or> digitVal (hd after) = None)
      \<longrightarrow> readResponseStatusCode (v @ '' '' @ d1 # d2 # d3 # after)
          = (if 100 \<le> statusCodeOf a b c \<and> statusCodeOf a b c \<le> 599 then statusCodeOf a b c else 0))
   \<and> (readResponseStatusCode resp = 0
        \<or> (100 \<le> readResponseStatusCode resp \<and> readResponseStatusCode resp \<le> 599
            \<and> (\<exists>v \<in> set statusVersions. \<exists>a b c d1 d2 d3 after.
                  resp = v @ '' '' @ d1 # d2 # d3 # after
                \<and> digitVal d1 = Some a \<and> digitVal d2 = Some b \<and> digitVal d3 = Some c
                \<and> (after = [] \<or> digitVal (hd after) = None)
                \<and> readResponseStatusCode resp = statusCodeOf a b c)))"
proof -
  have a: "readResponseStatusCode (v @ '' '' @ d1 # d2 # d3 # after)
          = (if 100 \<le> statusCodeOf a b c \<and> statusCodeOf a b c \<le> 599 then statusCodeOf a b c else 0)"
    if "v \<in> set statusVersions" "digitVal d1 = Some a" "digitVal d2 = Some b" "digitVal d3 = Some c"
       "after = [] \<or> digitVal (hd after) = None"
    for v a b c d1 d2 d3 after
    using that by (auto simp: readResponseStatusCode_def afterVersion_accepts)
  have b: "readResponseStatusCode resp = 0
        \<or> (100 \<le> readResponseStatusCode resp \<and> readResponseStatusCode resp \<le> 599
            \<and> (\<exists>v \<in> set statusVersions. \<exists>a b c d1 d2 d3 after.
                  resp = v @ '' '' @ d1 # d2 # d3 # after
                \<and> digitVal d1 = Some a \<and> digitVal d2 = Some b \<and> digitVal d3 = Some c
                \<and> (after = [] \<or> digitVal (hd after) = None)
                \<and> readResponseStatusCode resp = statusCodeOf a b c))"
  proof (cases "readResponseStatusCode resp = 0")
    case True
    then show ?thesis by simp
  next
    case False
    then obtain rest where av: "afterVersion statusVersions resp = Some rest"
      by (auto simp: readResponseStatusCode_def split: option.splits)
    with False obtain d1 d2 d3 after where rest: "rest = d1 # d2 # d3 # after"
      by (auto simp: readResponseStatusCode_def split: list.splits)
    with False av obtain a b c where
      dg: "digitVal d1 = Some a" "digitVal d2 = Some b" "digitVal d3 = Some c"
      by (auto simp: readResponseStatusCode_def split: option.splits)
    with False av rest have m: "after = [] \<or> digitVal (hd after) = None"
      and rg: "100 \<le> statusCodeOf a b c \<and> statusCodeOf a b c \<le> 599"
      and eq: "readResponseStatusCode resp = statusCodeOf a b c"
      by (auto simp: readResponseStatusCode_def split: if_splits)
    from afterVersion_Some [OF av] rest obtain v where
      vs: "v \<in> set statusVersions" and re: "resp = v @ '' '' @ d1 # d2 # d3 # after" by auto
    from vs re dg m eq
    have "\<exists>v \<in> set statusVersions. \<exists>a b c d1 d2 d3 after.
                  resp = v @ '' '' @ d1 # d2 # d3 # after
                \<and> digitVal d1 = Some a \<and> digitVal d2 = Some b \<and> digitVal d3 = Some c
                \<and> (after = [] \<or> digitVal (hd after) = None)
                \<and> readResponseStatusCode resp = statusCodeOf a b c"
      by blast
    with rg eq show ?thesis by presburger
  qed
  from a b show ?thesis by blast
qed

text \<open>
  \<^verbatim>\<open>HTTP/2 200\<close> parses to 200; the codes 099 and 600 parse to 0.
\<close>

theorem readResponseStatusCode_spec_witness:
  "readResponseStatusCode (''HTTP/2 200'' @ CRLF) = 200
   \<and> readResponseStatusCode (''HTTP/1.1 099 Low'' @ CRLF) = 0
   \<and> readResponseStatusCode (''HTTP/1.1 600 Too High'' @ CRLF) = 0"
proof -
  have v: "''HTTP/2'' \<in> set statusVersions" and w: "''HTTP/1.1'' \<in> set statusVersions"
    by (simp_all add: statusVersions_def)
  have d: "digitVal CHR ''2'' = Some 2" "digitVal CHR ''0'' = Some 0" "digitVal CHR ''9'' = Some 9"
    "digitVal CHR ''6'' = Some 6" "digitVal CR = None" "digitVal CHR '' '' = None"
    by (simp_all add: digitVal_def)
  note r = readResponseStatusCode_spec [of "[]", THEN conjunct1, rule_format]
  have "readResponseStatusCode (''HTTP/2'' @ '' '' @ CHR ''2'' # CHR ''0'' # CHR ''0'' # CRLF)
          = (if 100 \<le> statusCodeOf 2 0 0 \<and> statusCodeOf 2 0 0 \<le> 599 then statusCodeOf 2 0 0 else 0)"
    using v d by (intro r) simp
  moreover
  have "readResponseStatusCode (''HTTP/1.1'' @ '' '' @ CHR ''0'' # CHR ''9'' # CHR ''9'' # '' Low'' @ CRLF)
          = (if 100 \<le> statusCodeOf 0 9 9 \<and> statusCodeOf 0 9 9 \<le> 599 then statusCodeOf 0 9 9 else 0)"
    using w d by (intro r) simp
  moreover
  have "readResponseStatusCode (''HTTP/1.1'' @ '' '' @ CHR ''6'' # CHR ''0'' # CHR ''0'' # '' Too High'' @ CRLF)
          = (if 100 \<le> statusCodeOf 6 0 0 \<and> statusCodeOf 6 0 0 \<le> 599 then statusCodeOf 6 0 0 else 0)"
    using w d by (intro r) simp
  ultimately show ?thesis by (simp add: statusCodeOf_def)
qed

section \<open>Version normalization\<close>

text \<open>
  \<^verbatim>\<open>bytes.Cut(raw, "\r\n")\<close>: the bytes before and after the first CRLF, \<open>None\<close> when
  there is none; and \<^verbatim>\<open>bytes.HasSuffix\<close> with the bytes before the suffix.
\<close>

fun cut_crlf :: "bytes \<Rightarrow> (bytes \<times> bytes) option" where
  "cut_crlf (c # d # cs) =
     (if c = CR \<and> d = LF then Some ([], cs)
      else (case cut_crlf (d # cs) of None \<Rightarrow> None | Some (line, rest) \<Rightarrow> Some (c # line, rest)))"
| "cut_crlf cs = None"

definition stripSuffix :: "string \<Rightarrow> string \<Rightarrow> string option" where
  "stripSuffix suf s = map_option rev (stripPrefix (rev suf) (rev s))"

text \<open>
  Modelled from the spec: \<^verbatim>\<open>transformRequestForValidation\<close> of httputil.go, a file that
  is not among the sources (its test \<^verbatim>\<open>TestTransformRequestForValidation\<close> is). The
  specification says: requests carrying version HTTP/2 or HTTP/2.0 on the start line are
  rewritten to HTTP/1.1. The start line is the bytes before the first CRLF; by the test
  case \<^verbatim>\<open>no_crlf\<close> a request without a CRLF is returned as it is.
\<close>

definition transformRequestForValidation :: "bytes \<Rightarrow> bytes" where
  "transformRequestForValidation raw =
     (case cut_crlf raw of
        None \<Rightarrow> raw
      | Some (line, rest) \<Rightarrow>
          (case stripSuffix '' HTTP/2'' line of
             Some start \<Rightarrow> start @ '' HTTP/1.1'' @ CRLF @ rest
           | None \<Rightarrow>
               (case stripSuffix '' HTTP/2.0'' line of
                  Some start \<Rightarrow> start @ '' HTTP/1.1'' @ CRLF @ rest
                | None \<Rightarrow> raw)))"

lemma cut_crlf_None: "\<not> has_crlf s \<Longrightarrow> cut_crlf s = None"
  by (induction s rule: has_crlf.induct) auto

lemma cut_crlf_first: "\<not> has_crlf l \<Longrightarrow> cut_crlf (l @ CR # LF # rest) = Some (l, rest)"
proof (induction l rule: has_crlf.induct)
  case (1 c d cs)
  then show ?case by auto
qed simp_all

lemma has_crlf_append:
  "\<not> has_crlf a \<Longrightarrow> \<not> has_crlf b \<Longrightarrow> b = [] \<or> hd b \<noteq> LF \<Longrightarrow> \<not> has_crlf (a @ b)"
proof (induction a rule: has_crlf.induct)
  case (1 c d cs)
  then show ?case by auto
qed (cases b; auto)+

lemma stripSuffix_Some: "stripSuffix suf s = Some r \<longleftrightarrow> s = r @ suf"
proof -
  have "stripPrefix (rev suf) (rev s) = Some (rev r) \<longleftrightarrow> rev s = rev suf @ rev r"
    by (rule stripPrefix_Some)
  also have "\<dots> \<longleftrightarrow> s = r @ suf"
    by (metis rev_append rev_rev_ident)
  finally have e: "stripPrefix (rev suf) (rev s) = Some (rev r) \<longleftrightarrow> s = r @ suf" .
  show ?thesis
  proof
    assume "stripSuffix suf s = Some r"
    then obtain x where "stripPrefix (rev suf) (rev s) = Some x" and "rev x = r"
      by (auto simp: stripSuffix_def)
    then have "stripPrefix (rev suf) (rev s) = Some (rev r)" by auto
    with e show "s = r @ suf" by simp
  next
    assume "s = r @ suf"
    with e have "stripPrefix (rev suf) (rev s) = Some (rev r)" by simp
    then show "stripSuffix suf s = Some r" by (simp add: stripSuffix_def)
  qed
qed

lemma stripSuffix_append: "stripSuffix suf (r @ suf) = Some r"
  by (simp add: stripSuffix_Some)

lemma stripSuffix_None: "(\<And>r. s \<noteq> r @ suf) \<Longrightarrow> stripSuffix suf s = None"
  by (cases "stripSuffix suf s") (auto simp: stripSuffix_Some)

text \<open>
  The cases of \<^verbatim>\<open>TestTransformRequestForValidation\<close>.
\<close>

lemma transform_tests:
  "transformRequestForValidation (''POST /api/example HTTP/2'' @ CRLF @ ''Host: example.com'' @ CRLF @ CRLF)
     = ''POST /api/example HTTP/1.1'' @ CRLF @ ''Host: example.com'' @ CRLF @ CRLF"
  "transformRequestForValidation (''GET /path HTTP/2'' @ CRLF @ ''Host: test.com'' @ CRLF @ CRLF)
     = ''GET /path HTTP/1.1'' @ CRLF @ ''Host: test.com'' @ CRLF @ CRLF"
  "transformRequestForValidation (''GET / HTTP/1.1'' @ CRLF @ ''Host: example.com'' @ CRLF @ CRLF)
     = ''GET / HTTP/1.1'' @ CRLF @ ''Host: example.com'' @ CRLF @ CRLF"
  "transformRequestForValidation (''GET / HTTP/1.0'' @ CRLF @ ''Host: example.com'' @ CRLF @ CRLF)
     = ''GET / HTTP/1.0'' @ CRLF @ ''Host: example.com'' @ CRLF @ CRLF"
  "transformRequestForValidation (''POST /api HTTP/2'' @ CRLF @ ''Host: test.com'' @ CRLF @ ''Content-Length: 4'' @ CRLF @ CRLF @ ''test'')
     = ''POST /api HTTP/1.1'' @ CRLF @ ''Host: test.com'' @ CRLF @ ''Content-Length: 4'' @ CRLF @ CRLF @ ''test''"
  "transformRequestForValidation ''GET / HTTP/2'' = ''GET / HTTP/2''"
  by code_simp+


lemma version_line_no_crlf:
  assumes "\<not> has_crlf start"
  shows "\<not> has_crlf (start @ '' HTTP/2'')" "\<not> has_crlf (start @ '' HTTP/2.0'')"
        "\<not> has_crlf (start @ '' HTTP/1.1'')" "\<not> has_crlf (start @ '' HTTP/1.0'')"
  by (rule has_crlf_append [OF assms]; simp)+

lemma transform_line:
  assumes "\<not> has_crlf line"
  shows "transformRequestForValidation (line @ CRLF @ rest) =
           (case stripSuffix '' HTTP/2'' line of
              Some start \<Rightarrow> start @ '' HTTP/1.1'' @ CRLF @ rest
            | None \<Rightarrow>
                (case stripSuffix '' HTTP/2.0'' line of
                   Some start \<Rightarrow> start @ '' HTTP/1.1'' @ CRLF @ rest
                 | None \<Rightarrow> line @ CRLF @ rest))"
  using cut_crlf_first [OF assms, of rest]
  by (simp add: transformRequestForValidation_def split: option.splits)

lemma stripSuffix_versions:
  "stripSuffix '' HTTP/2'' (start @ '' HTTP/2'') = Some start"
  "stripSuffix '' HTTP/2'' (start @ '' HTTP/2.0'') = None"
  "stripSuffix '' HTTP/2.0'' (start @ '' HTTP/2.0'') = Some start"
  "stripSuffix '' HTTP/2'' (start @ '' HTTP/1.1'') = None"
  "stripSuffix '' HTTP/2.0'' (start @ '' HTTP/1.1'') = None"
  "stripSuffix '' HTTP/2'' (start @ '' HTTP/1.0'') = None"
  "stripSuffix '' HTTP/2.0'' (start @ '' HTTP/1.0'') = None"
  by (simp_all add: stripSuffix_def)

text \<open>
  Claim C6, as the code has it. For a request whose start line ends at a CRLF: the version
  HTTP/2 or HTTP/2.0 at the end of the start line becomes HTTP/1.1, and the bytes before
  the version (method and path) and after the CRLF (the other headers and the body) stay
  as they are; a request at HTTP/1.1 or HTTP/1.0 is returned as it is. A request without
  any CRLF is returned as it is, whatever its version.
\<close>

theorem transformRequestForValidation_normalizes:
  assumes "\<not> has_crlf start"
  shows "transformRequestForValidation (start @ '' HTTP/2'' @ CRLF @ rest)
           = start @ '' HTTP/1.1'' @ CRLF @ rest
       \<and> transformRequestForValidation (start @ '' HTTP/2.0'' @ CRLF @ rest)
           = start @ '' HTTP/1.1'' @ CRLF @ rest
       \<and> transformRequestForValidation (start @ '' HTTP/1.1'' @ CRLF @ rest)
           = start @ '' HTTP/1.1'' @ CRLF @ rest
       \<and> transformRequestForValidation (start @ '' HTTP/1.0'' @ CRLF @ rest)
           = start @ '' HTTP/1.0'' @ CRLF @ rest
       \<and> transformRequestForValidation start = start"
proof -
  note n = version_line_no_crlf [OF assms]
  have a: "transformRequestForValidation ((start @ '' HTTP/2'') @ CRLF @ rest)
           = start @ '' HTTP/1.1'' @ CRLF @ rest"
    unfolding transform_line [OF n(1)] stripSuffix_versions by simp
  have b: "transformRequestForValidation ((start @ '' HTTP/2.0'') @ CRLF @ rest)
           = start @ '' HTTP/1.1'' @ CRLF @ rest"
    unfolding transform_line [OF n(2)] stripSuffix_versions by simp
  have c: "transformRequestForValidation ((start @ '' HTTP/1.1'') @ CRLF @ rest)
           = start @ '' HTTP/1.1'' @ CRLF @ rest"
    unfolding transform_line [OF n(3)] stripSuffix_versions by simp
  have d: "transformRequestForValidation ((start @ '' HTTP/1.0'') @ CRLF @ rest)
           = start @ '' HTTP/1.0'' @ CRLF @ rest"
    unfolding transform_line [OF n(4)] stripSuffix_versions by simp
  have e: "transformRequestForValidation start = start"
    using assms by (simp add: transformRequestForValidation_def cut_crlf_None)
  from a b c d e show ?thesis by simp
qed

theorem transformRequestForValidation_normalizes_witness:
  "transformRequestForValidation (''POST /api HTTP/2'' @ CRLF @ ''Host: test.com'' @ CRLF @ CRLF @ ''test'')
     = ''POST /api HTTP/1.1'' @ CRLF @ ''Host: test.com'' @ CRLF @ CRLF @ ''test''
   \<and> transformRequestForValidation (''POST /api HTTP/2.0'' @ CRLF @ ''Host: test.com'' @ CRLF @ CRLF @ ''test'')
     = ''POST /api HTTP/1.1'' @ CRLF @ ''Host: test.com'' @ CRLF @ CRLF @ ''test''"
proof -
  have "\<not> has_crlf ''POST /api''" by simp
  from transformRequestForValidation_normalizes
         [OF this, of "''Host: test.com'' @ CRLF @ CRLF @ ''test''"]
  show ?thesis by simp
qed

text \<open>
  The claim as stated fails for a request that is only a start line without CRLF: its
  version HTTP/2 is not rewritten (test case \<^verbatim>\<open>no_crlf\<close>).
\<close>

theorem transformRequestForValidation_no_crlf_counterexample:
  "transformRequestForValidation ''GET / HTTP/2'' = ''GET / HTTP/2''
   \<and> ''GET / HTTP/2'' \<noteq> ''GET / HTTP/1.1''"
  by (simp add: transformRequestForValidation_def)

section \<open>Request-line rewrite\<close>

text \<open>
  \<^verbatim>\<open>strings.Split\<close>, \<^verbatim>\<open>strings.Join\<close> and \<^verbatim>\<open>strings.Cut\<close> for a separator of one
  character.
\<close>

fun splitOn :: "char \<Rightarrow> string \<Rightarrow> string list" where
  "splitOn sep [] = [[]]"
| "splitOn sep (c # cs) =
     (if c = sep then [] # splitOn sep cs
      else (case splitOn sep cs of [] \<Rightarrow> [[c]] | l # ls \<Rightarrow> (c # l) # ls))"

fun joinWith :: "string \<Rightarrow> string list \<Rightarrow> string" where
  "joinWith sep [] = []"
| "joinWith sep [l] = l"
| "joinWith sep (l # m # ls) = l @ sep @ joinWith sep (m # ls)"

definition cutChar :: "char \<Rightarrow> string \<Rightarrow> string \<times> string" where
  "cutChar sep s = (takeWhile (\<lambda>c. c \<noteq> sep) s, drop 1 (dropWhile (\<lambda>c. c \<noteq> sep) s))"

text \<open>
  Modelled from the spec: \<^verbatim>\<open>parseRequestLine\<close>, \<^verbatim>\<open>PathQueryOpts.HasModifications\<close> and
  \<^verbatim>\<open>modifyRequestLine\<close> of httputil.go, a file that is not among the sources (their
  tests in httputil\_test.go are). The specification says: parse the start line into
  (method, path, query, version); replace the path if given; replace the entire query
  string if given; apply \<^verbatim>\<open>remove_query\<close>, which drops named parameters; apply
  \<^verbatim>\<open>set_query\<close>, which upserts named parameters; the final query is serialized with
  unchanged keys in first-seen order and the keys of \<^verbatim>\<open>set_query\<close> in insertion order.

  The model keeps the parameters of a query as an ordered list of keys, each with its
  values: parsing adds a key behind the others when it is first seen; removing drops a
  key; setting replaces the values of a key in place, or adds the key behind the others
  when it is new. An option that is the empty string or the empty list is not given. A
  request without CRLF, or options without modifications, give the request back.
\<close>

definition parseRequestLine :: "string \<Rightarrow> string \<times> string \<times> string \<times> string" where
  "parseRequestLine line =
     (case cutChar CHR '' '' line of
        (method, r) \<Rightarrow>
          (case cutChar CHR '' '' r of
             (target, version) \<Rightarrow>
               (case cutChar CHR ''?'' target of
                  (path, query) \<Rightarrow> (method, path, query, version))))"

text \<open>
  Modelled from the spec: \<^verbatim>\<open>PathQueryOpts.HasModifications\<close> (file not among the sources),
  after \<^verbatim>\<open>TestPathQueryOptsHasModifications\<close>: some option is given.
\<close>

definition HasModifications :: "PathQueryOpts \<Rightarrow> bool" where
  "HasModifications opts =
     (pq_Path opts \<noteq> [] \<or> pq_Query opts \<noteq> [] \<or> pq_SetQuery opts \<noteq> [] \<or> pq_RemoveQuery opts \<noteq> [])"

type_synonym QueryParams = "(string \<times> string list) list"

definition querySegments :: "string \<Rightarrow> string list" where
  "querySegments query = filter (\<lambda>s. s \<noteq> []) (splitOn CHR ''&'' query)"

definition paramKey :: "string \<Rightarrow> string" where
  "paramKey item = fst (cutChar CHR ''='' item)"

definition paramValue :: "string \<Rightarrow> string" where
  "paramValue item = snd (cutChar CHR ''='' item)"

definition addParam :: "QueryParams \<Rightarrow> string \<Rightarrow> QueryParams" where
  "addParam ps item =
     (if paramKey item \<in> set (map fst ps)
      then map (\<lambda>(k, vs). if k = paramKey item then (k, vs @ [paramValue item]) else (k, vs)) ps
      else ps @ [(paramKey item, [paramValue item])])"

definition parseQuery :: "string \<Rightarrow> QueryParams" where
  "parseQuery query = foldl addParam [] (querySegments query)"

definition removeParams :: "string list \<Rightarrow> QueryParams \<Rightarrow> QueryParams" where
  "removeParams names ps = filter (\<lambda>(k, vs). k \<notin> set names) ps"

definition setParam :: "QueryParams \<Rightarrow> string \<Rightarrow> QueryParams" where
  "setParam ps item =
     (if paramKey item \<in> set (map fst ps)
      then map (\<lambda>(k, vs). if k = paramKey item then (k, [paramValue item]) else (k, vs)) ps
      else ps @ [(paramKey item, [paramValue item])])"

definition encodeQuery :: "QueryParams \<Rightarrow> string" where
  "encodeQuery ps = joinWith ''&'' (concat (map (\<lambda>(k, vs). map (\<lambda>v. k @ ''='' @ v) vs) ps))"

text \<open>
  Modelled from the spec: the parameters after \<^verbatim>\<open>remove_query\<close> and then \<^verbatim>\<open>set_query\<close>,
  and the start line written back.
\<close>

definition modifiedParams :: "string \<Rightarrow> string list \<Rightarrow> string list \<Rightarrow> QueryParams" where
  "modifiedParams query removeQuery setQuery =
     foldl setParam (removeParams removeQuery (parseQuery query)) setQuery"

definition renderRequestLine :: "string \<Rightarrow> string \<Rightarrow> string \<Rightarrow> string \<Rightarrow> string" where
  "renderRequestLine method path query version =
     method @ '' '' @ path @ (if query \<noteq> [] then ''?'' @ query else []) @ '' '' @ version"

definition editedPath :: "PathQueryOpts \<Rightarrow> string \<Rightarrow> string" where
  "editedPath opts path = (if pq_Path opts \<noteq> [] then pq_Path opts else path)"

definition editedQuery :: "PathQueryOpts \<Rightarrow> string \<Rightarrow> string" where
  "editedQuery opts query =
     (let replaced = (if pq_Query opts \<noteq> [] then pq_Query opts else query)
      in if pq_RemoveQuery opts \<noteq> [] \<or> pq_SetQuery opts \<noteq> []
         then encodeQuery (modifiedParams replaced (pq_RemoveQuery opts) (pq_SetQuery opts))
         else replaced)"

text \<open>
  Modelled from the spec: \<^verbatim>\<open>modifyRequestLine\<close> (file not among the sources): the edits of
  stage 2 of the pipeline, in the order of the specification, on the start line of the
  request.
\<close>

definition modifyRequestLine :: "bytes \<Rightarrow> PathQueryOpts \<Rightarrow> bytes" where
  "modifyRequestLine raw opts =
     (if \<not> HasModifications opts then raw
      else
        (case cut_crlf raw of
           None \<Rightarrow> raw
         | Some (line, rest) \<Rightarrow>
             (case parseRequestLine line of
                (method, path, query, version) \<Rightarrow>
                  renderRequestLine method (editedPath opts path) (editedQuery opts query) version
                  @ CRLF @ rest)))"


definition noOpts :: PathQueryOpts where
  "noOpts = \<lparr>pq_Path = [], pq_Query = [], pq_SetQuery = [], pq_RemoveQuery = []\<rparr>"

text \<open>
  The cases of \<^verbatim>\<open>TestParseRequestLine\<close> and of \<^verbatim>\<open>TestModifyRequestLine\<close> (without the
  case of a nil pointer).
\<close>

lemma parseRequestLine_tests:
  "parseRequestLine ''GET /api/users HTTP/1.1'' = (''GET'', ''/api/users'', [], ''HTTP/1.1'')"
  "parseRequestLine ''GET /api/users?id=123&role=admin HTTP/1.1''
     = (''GET'', ''/api/users'', ''id=123&role=admin'', ''HTTP/1.1'')"
  "parseRequestLine ''POST /api/data HTTP/2'' = (''POST'', ''/api/data'', [], ''HTTP/2'')"
  "parseRequestLine ''GET / HTTP/1.1'' = (''GET'', ''/'', [], ''HTTP/1.1'')"
  "parseRequestLine ''GET /search?q= HTTP/1.1'' = (''GET'', ''/search'', ''q='', ''HTTP/1.1'')"
  "parseRequestLine [] = ([], [], [], [])"
  by code_simp+

lemma modifyRequestLine_tests:
  "modifyRequestLine (''GET /api/users HTTP/1.1'' @ CRLF @ ''Host: example.com'' @ CRLF @ CRLF) noOpts
     = ''GET /api/users HTTP/1.1'' @ CRLF @ ''Host: example.com'' @ CRLF @ CRLF"
  "modifyRequestLine (''GET /api/users HTTP/1.1'' @ CRLF @ ''Host: example.com'' @ CRLF @ CRLF)
     (noOpts\<lparr>pq_Path := ''/api/v2/accounts''\<rparr>)
     = ''GET /api/v2/accounts HTTP/1.1'' @ CRLF @ ''Host: example.com'' @ CRLF @ CRLF"
  "modifyRequestLine (''GET /api/users?id=123 HTTP/1.1'' @ CRLF @ ''Host: example.com'' @ CRLF @ CRLF)
     (noOpts\<lparr>pq_Path := ''/api/v2/accounts''\<rparr>)
     = ''GET /api/v2/accounts?id=123 HTTP/1.1'' @ CRLF @ ''Host: example.com'' @ CRLF @ CRLF"
  "modifyRequestLine (''GET /api/users?old=value HTTP/1.1'' @ CRLF @ ''Host: example.com'' @ CRLF @ CRLF)
     (noOpts\<lparr>pq_Query := ''new=param&foo=bar''\<rparr>)
     = ''GET /api/users?new=param&foo=bar HTTP/1.1'' @ CRLF @ ''Host: example.com'' @ CRLF @ CRLF"
  "modifyRequestLine (''GET /api/users HTTP/1.1'' @ CRLF @ ''Host: example.com'' @ CRLF @ CRLF)
     (noOpts\<lparr>pq_Query := ''id=123''\<rparr>)
     = ''GET /api/users?id=123 HTTP/1.1'' @ CRLF @ ''Host: example.com'' @ CRLF @ CRLF"
  "modifyRequestLine (''GET /api/users?id=123&role=user HTTP/1.1'' @ CRLF @ ''Host: example.com'' @ CRLF @ CRLF)
     (noOpts\<lparr>pq_SetQuery := [''role=admin'']\<rparr>)
     = ''GET /api/users?id=123&role=admin HTTP/1.1'' @ CRLF @ ''Host: example.com'' @ CRLF @ CRLF"
  "modifyRequestLine (''GET /api/users?id=123&secret=abc HTTP/1.1'' @ CRLF @ ''Host: example.com'' @ CRLF @ CRLF)
     (noOpts\<lparr>pq_RemoveQuery := [''secret'']\<rparr>)
     = ''GET /api/users?id=123 HTTP/1.1'' @ CRLF @ ''Host: example.com'' @ CRLF @ CRLF"
  "modifyRequestLine (''GET /old/path?a=1&b=2&c=3 HTTP/1.1'' @ CRLF @ ''Host: example.com'' @ CRLF @ CRLF)
     \<lparr>pq_Path = ''/new/path'', pq_Query = [], pq_SetQuery = [''a=changed'', ''d=4''],
      pq_RemoveQuery = [''b'']\<rparr>
     = ''GET /new/path?a=changed&c=3&d=4 HTTP/1.1'' @ CRLF @ ''Host: example.com'' @ CRLF @ CRLF"
  "modifyRequestLine (''POST /api/data HTTP/1.1'' @ CRLF @ ''Host: example.com'' @ CRLF
       @ ''Content-Length: 4'' @ CRLF @ CRLF @ ''test'')
     (noOpts\<lparr>pq_Path := ''/api/v2/data''\<rparr>)
     = ''POST /api/v2/data HTTP/1.1'' @ CRLF @ ''Host: example.com'' @ CRLF
       @ ''Content-Length: 4'' @ CRLF @ CRLF @ ''test''"
  "modifyRequestLine (''GET /api/test HTTP/2'' @ CRLF @ ''Host: example.com'' @ CRLF @ CRLF)
     (noOpts\<lparr>pq_Path := ''/api/v2/test''\<rparr>)
     = ''GET /api/v2/test HTTP/2'' @ CRLF @ ''Host: example.com'' @ CRLF @ CRLF"
  by code_simp+











end
